theory Spec2Isabelle
  imports Main
begin

section \<open>JavaScript values and strings\<close>

text \<open>
  The synchronization engine is JavaScript. A CSV row is an object whose own properties
  are strings; reading a column that the row does not have gives \<open>undefined\<close>. The payloads
  the processor builds are object literals whose properties are strings, numbers, booleans
  or, through the prototype chain of a literal, members of \<open>Object.prototype\<close>.

  A string is a list of code units; \<^typ>\<open>char\<close> covers the code units below 256.
  Numbers are mathematical integers here: \<open>parseInt\<close> yields an integer or \<open>NaN\<close>, and
  the conversion to a double is exact for magnitudes up to \<open>2^53\<close>, far above any
  subscription count. \<open>NaN\<close> is a value of its own.
\<close>

datatype jsval =
    JUndefined
  | JString string
  | JNumber int
  | JNaN
  | JBoolean bool
  | JInherited string  \<comment> \<open>the member of \<open>Object.prototype\<close> with this name\<close>

text \<open>\<open>ToBoolean\<close>: what \<open>!v\<close>, \<open>v || w\<close> and \<open>v ? a : b\<close> test.\<close>

fun truthy :: "jsval \<Rightarrow> bool" where
  "truthy JUndefined = False"
| "truthy (JString s) = (s \<noteq> [])"
| "truthy (JNumber n) = (n \<noteq> 0)"
| "truthy JNaN = False"
| "truthy (JBoolean b) = b"
| "truthy (JInherited k) = True"

definition jsOr :: "jsval \<Rightarrow> jsval \<Rightarrow> jsval" where
  "jsOr a b = (if truthy a then a else b)"

text \<open>
  White space as \<open>String.prototype.trim\<close>, \<open>parseInt\<close> and the regular-expression class
  \<open>\s\<close> see it (WhiteSpace and LineTerminator), among the code units below 256: TAB, LF,
  VT, FF, CR, SP and NBSP.
\<close>

definition isWhitespace :: "char \<Rightarrow> bool" where
  "isWhitespace c =
     (c \<in> set [CHR 0x09, CHR 0x0A, CHR 0x0B, CHR 0x0C, CHR 0x0D, CHR 0x20, CHR 0xA0])"

definition trim :: "string \<Rightarrow> string" where
  "trim s = rev (dropWhile isWhitespace (rev (dropWhile isWhitespace s)))"

text \<open>
  \<open>toLowerCase\<close> on the ASCII letters. The only use is the comparison with \<open>'true'\<close>, and
  no other code unit lowers to one of the letters t, r, u, e.
\<close>

definition toLowerChar :: "char \<Rightarrow> char" where
  "toLowerChar c =
     (case map_of (zip ''ABCDEFGHIJKLMNOPQRSTUVWXYZ'' ''abcdefghijklmnopqrstuvwxyz'') c of
        Some l \<Rightarrow> l
      | None \<Rightarrow> c)"

definition toLowerCase :: "string \<Rightarrow> string" where
  "toLowerCase s = map toLowerChar s"

subsection \<open>Objects\<close>

text \<open>
  An object literal is the list of its own properties in insertion order. Reading a
  property that is not there gives \<open>undefined\<close> (the objects read this way below are only
  read at names that \<open>Object.prototype\<close> does not have).
\<close>

type_synonym jsobj = "(string \<times> jsval) list"

definition getProp :: "jsobj \<Rightarrow> string \<Rightarrow> jsval" where
  "getProp ob k = (case map_of ob k of Some v \<Rightarrow> v | None \<Rightarrow> JUndefined)"

text \<open>A row as \<open>parseCSV\<close> produces it: column name to string.\<close>

type_synonym row = "(string \<times> string) list"

definition rowGet :: "row \<Rightarrow> string \<Rightarrow> string option" where
  "rowGet r k = map_of r k"

definition ofField :: "string option \<Rightarrow> jsval" where
  "ofField v = (case v of None \<Rightarrow> JUndefined | Some s \<Rightarrow> JString s)"

section \<open>The processor (\<open>HighPerformanceProcessor\<close>)\<close>

subsection \<open>\<open>parseInt\<close>\<close>

text \<open>
  \<open>parseInt(v)\<close> with no radix argument (ECMAScript 19.2.5): the argument is converted to a
  string (\<open>undefined\<close> to \<open>"undefined"\<close>), leading white space is dropped, then an optional
  sign; a following \<open>0x\<close> or \<open>0X\<close> selects radix 16 and is dropped, otherwise the radix is
  10; the longest prefix of digits of that radix is read; no digit at all gives \<open>NaN\<close>.
\<close>

definition digitVal :: "nat \<Rightarrow> char \<Rightarrow> nat option" where
  "digitVal R c =
     (case map_of (zip ''0123456789abcdef'' [0, 1, 2, 3, 4, 5, 6, 7, 8, 9, 10, 11, 12, 13, 14, 15]
                   @ zip ''ABCDEF'' [10, 11, 12, 13, 14, 15]) c of
        Some d \<Rightarrow> (if d < R then Some d else None)
      | None \<Rightarrow> None)"

definition isDigit :: "nat \<Rightarrow> char \<Rightarrow> bool" where
  "isDigit R c = (digitVal R c \<noteq> None)"

definition digitsValue :: "nat \<Rightarrow> string \<Rightarrow> nat" where
  "digitsValue R Z =
     foldl (\<lambda>a c. case digitVal R c of Some d \<Rightarrow> a * R + d | None \<Rightarrow> a) 0 Z"

definition ToString :: "string option \<Rightarrow> string" where
  "ToString v = (case v of None \<Rightarrow> ''undefined'' | Some s \<Rightarrow> s)"

definition stripSign :: "string \<Rightarrow> string" where
  "stripSign S = (if take 1 S = ''-'' \<or> take 1 S = ''+'' then drop 1 S else S)"

definition hexPrefixed :: "string \<Rightarrow> bool" where
  "hexPrefixed S = (take 2 S = ''0x'' \<or> take 2 S = ''0X'')"

definition parseInt :: "string option \<Rightarrow> jsval" where
  "parseInt v =
     (let S0 = dropWhile isWhitespace (ToString v);
          sign = (if take 1 S0 = ''-'' then - 1 else 1);
          S1 = stripSign S0;
          R = (if hexPrefixed S1 then 16 else 10);
          S2 = (if hexPrefixed S1 then drop 2 S1 else S1);
          Z = takeWhile (isDigit R) S2
      in if Z = [] then JNaN else JNumber (sign * int (digitsValue R Z)))"

text \<open>
  The reading of \<open>parseInt\<close> that the specification gives, for comparison: the same scan
  with the radix fixed at 10.
\<close>

definition parseBase10 :: "string option \<Rightarrow> jsval" where
  "parseBase10 v =
     (let S0 = dropWhile isWhitespace (ToString v);
          sign = (if take 1 S0 = ''-'' then - 1 else 1);
          S1 = stripSign S0;
          Z = takeWhile (isDigit 10) S1
      in if Z = [] then JNaN else JNumber (sign * int (digitsValue 10 Z)))"

text \<open>\<open>parseInt(v) || 0\<close>, the form every subscription count is read in.\<close>

definition countOf :: "string option \<Rightarrow> jsval" where
  "countOf v = jsOr (parseInt v) (JNumber 0)"

subsection \<open>\<open>validateRow\<close>, \<open>isValidEmail\<close>, \<open>convertToBoolean\<close>\<close>

text \<open>
  \<open>isValidEmail\<close> tests the whole string against \<open>/^[^\s@]+@[^\s@]+\.[^\s@]+$/\<close>. The
  class \<open>[^\s@]\<close> contains the dot, so after the only \<open>@\<close> the string needs one dot that is
  neither its first nor its last character. \<open>emailShape\<close> is the language of the
  expression; \<open>isValidEmail\<close> is the test that runs.
\<close>

definition emailChar :: "char \<Rightarrow> bool" where
  "emailChar c = (\<not> isWhitespace c \<and> c \<noteq> CHR ''@'')"

definition emailShape :: "string \<Rightarrow> bool" where
  "emailShape s =
     (\<exists>a b c. s = a @ ''@'' @ b @ ''.'' @ c \<and> a \<noteq> [] \<and> b \<noteq> [] \<and> c \<noteq> [] \<and>
        list_all emailChar a \<and> list_all emailChar b \<and> list_all emailChar c)"

definition isValidEmail :: "string \<Rightarrow> bool" where
  "isValidEmail s =
     (let local = takeWhile emailChar s; rest = dropWhile emailChar s
      in local \<noteq> [] \<and>
         (case rest of
            [] \<Rightarrow> False
          | c # domain \<Rightarrow>
              c = CHR ''@'' \<and> list_all emailChar domain \<and> CHR ''.'' \<in> set (butlast (tl domain))))"

text \<open>
  \<open>validateRow(row, requiredFields = ['email', 'user_id'])\<close>: a required field is missing
  when \<open>!row[field] || row[field].trim() === ''\<close>.
\<close>

definition fieldMissing :: "row \<Rightarrow> string \<Rightarrow> bool" where
  "fieldMissing r f =
     (case rowGet r f of None \<Rightarrow> True | Some s \<Rightarrow> s = [] \<or> trim s = [])"

definition validateRowWith :: "row \<Rightarrow> string list \<Rightarrow> bool" where
  "validateRowWith r requiredFields =
     (let missingFields = filter (fieldMissing r) requiredFields
      in if length missingFields > 0 then False
         else (case rowGet r ''email'' of
                 Some e \<Rightarrow> (if e \<noteq> [] \<and> \<not> isValidEmail e then False else True)
               | None \<Rightarrow> True))"

definition validateRow :: "row \<Rightarrow> bool" where
  "validateRow r = validateRowWith r [''email'', ''user_id'']"

text \<open>
  \<open>convertToBoolean\<close>: a row value is a string or \<open>undefined\<close>, so the \<open>typeof value ===
  'boolean'\<close> branch is not taken; \<open>Boolean(undefined)\<close> is \<open>false\<close>.
\<close>

definition convertToBoolean :: "string option \<Rightarrow> bool" where
  "convertToBoolean v =
     (case v of
        Some s \<Rightarrow> toLowerCase s = ''true'' \<or> s = ''1''
      | None \<Rightarrow> truthy JUndefined)"

subsection \<open>\<open>mapAccountType\<close>\<close>

text \<open>
  \<open>accountTypeMapping[userType] || userType\<close>, where \<open>accountTypeMapping\<close> is the object
  literal \<open>{'MP': 'MP', 'WIX': 'USAMPS'}\<close>. Property lookup on a literal walks the
  prototype chain: at a name of \<open>Object.prototype\<close> it finds that member (a function, or
  for \<open>__proto__\<close> the prototype object), which is truthy. \<open>undefined\<close> as a key is the
  name \<open>"undefined"\<close>.
\<close>

definition objectPrototypeNames :: "string list" where
  "objectPrototypeNames =
     [''constructor'', ''__defineGetter__'', ''__defineSetter__'', ''hasOwnProperty'',
      ''__lookupGetter__'', ''__lookupSetter__'', ''isPrototypeOf'', ''propertyIsEnumerable'',
      ''toString'', ''valueOf'', ''__proto__'', ''toLocaleString'']"

definition accountTypeMapping :: "string \<Rightarrow> jsval" where
  "accountTypeMapping k =
     (case map_of [(''MP'', ''MP''), (''WIX'', ''USAMPS'')] k of
        Some v \<Rightarrow> JString v
      | None \<Rightarrow> (if k \<in> set objectPrototypeNames then JInherited k else JUndefined))"

definition mapAccountType :: "string option \<Rightarrow> jsval" where
  "mapAccountType userType = jsOr (accountTypeMapping (ToString userType)) (ofField userType)"

subsection \<open>\<open>mapContactFields\<close>, \<open>mapAccountFields\<close>\<close>

text \<open>
  Both build a mapping object and copy it property by property, leaving out the values
  \<open>undefined\<close>, \<open>null\<close> and \<open>''\<close> and trimming the strings.
\<close>

definition cleanValue :: "jsval \<Rightarrow> jsval" where
  "cleanValue v = (case v of JString s \<Rightarrow> JString (trim s) | _ \<Rightarrow> v)"

definition keepValue :: "jsval \<Rightarrow> bool" where
  "keepValue v = (v \<noteq> JUndefined \<and> v \<noteq> JString [])"

definition cleanObject :: "jsobj \<Rightarrow> jsobj" where
  "cleanObject ob = map (\<lambda>(k, v). (k, cleanValue v)) (filter (\<lambda>(k, v). keepValue v) ob)"

definition contactMapping :: "row \<Rightarrow> jsobj" where
  "contactMapping r =
     [(''email'', ofField (rowGet r ''email'')),
      (''user_type'', mapAccountType (rowGet r ''user_type''))]"

definition mapContactFields :: "row \<Rightarrow> jsobj" where
  "mapContactFields r = cleanObject (contactMapping r)"

definition boolString :: "bool \<Rightarrow> jsval" where
  "boolString b = JString (if b then ''true'' else ''false'')"

definition accountMapping :: "row \<Rightarrow> jsobj" where
  "accountMapping r =
     [(''id'', ofField (rowGet r ''user_id'')),
      (''account_type'', mapAccountType (rowGet r ''user_type'')),
      (''active_subscription'', boolString (convertToBoolean (rowGet r ''active_sub''))),
      (''weekly_subscriptions'', countOf (rowGet r ''weekly_sub_count'')),
      (''monthly_subscriptions'', countOf (rowGet r ''monthly_sub_count'')),
      (''daily_subscriptions'', countOf (rowGet r ''daily_sub_count'')),
      (''ever_had_subscription'', boolString (convertToBoolean (rowGet r ''active_sub'')))]"

definition mapAccountFields :: "row \<Rightarrow> jsobj option" where
  "mapAccountFields r =
     (let cleanedAccount = cleanObject (accountMapping r)
      in if truthy (getProp cleanedAccount ''id'') then Some cleanedAccount else None)"

subsection \<open>\<open>filterRecordsForProcessing\<close>\<close>

record filterResult =
  activeRecords :: "row list"
  inactiveRecords :: "row list"
  allRecordsForCreation :: "row list"
  totalReduction :: nat

text \<open>The body of \<open>rows.forEach\<close>: a valid row is pushed on two of the three lists.\<close>

definition filterStep :: "filterResult \<Rightarrow> row \<Rightarrow> filterResult" where
  "filterStep acc r =
     (if validateRow r then
        (let activeSub = convertToBoolean (rowGet r ''active_sub'');
             acc1 = (if activeSub then acc\<lparr>activeRecords := activeRecords acc @ [r]\<rparr>
                     else acc\<lparr>inactiveRecords := inactiveRecords acc @ [r]\<rparr>)
         in acc1\<lparr>allRecordsForCreation := allRecordsForCreation acc1 @ [r]\<rparr>)
      else acc)"

definition filterRecordsForProcessing :: "row list \<Rightarrow> filterResult" where
  "filterRecordsForProcessing rows =
     foldl filterStep
       \<lparr>activeRecords = [], inactiveRecords = [], allRecordsForCreation = [], totalReduction = 0\<rparr>
       rows"

subsection \<open>\<open>createDeactivationMap\<close>\<close>

text \<open>
  A \<open>Map\<close> from \<open>row.user_id\<close> (as it stands in the row, not trimmed) to the values the
  account is to be reset to. A later row with the same \<open>user_id\<close> replaces an earlier one.
\<close>

definition deactivationEntry :: "row \<Rightarrow> string \<Rightarrow> jsobj" where
  "deactivationEntry r u =
     [(''user_id'', JString u),
      (''active_subscription'', JBoolean False),
      (''weekly_subscriptions'', countOf (rowGet r ''weekly_sub_count'')),
      (''monthly_subscriptions'', countOf (rowGet r ''monthly_sub_count'')),
      (''daily_subscriptions'', countOf (rowGet r ''daily_sub_count''))]"

definition deactivationStep :: "(string \<rightharpoonup> jsobj) \<Rightarrow> row \<Rightarrow> (string \<rightharpoonup> jsobj)" where
  "deactivationStep m r =
     (case rowGet r ''user_id'' of
        Some u \<Rightarrow> (if truthy (JString u) then m(u \<mapsto> deactivationEntry r u) else m)
      | None \<Rightarrow> m)"

definition createDeactivationMap :: "row list \<Rightarrow> (string \<rightharpoonup> jsobj)" where
  "createDeactivationMap rows = foldl deactivationStep Map.empty rows"

subsection \<open>\<open>groupForBatchProcessing\<close>\<close>

record associationPair =
  accountId :: jsval
  contactEmail :: jsval

record batch =
  accounts :: "jsobj list"
  contacts :: "jsobj list"
  associations :: "associationPair list"
  batchNumber :: nat
  totalBatches :: nat

definition batchSize :: nat where
  "batchSize = 100"

text \<open>
  The body of \<open>batch.forEach\<close>, on the three lists being filled. \<open>contactData\<close> is an
  object, so \<open>if (contactData)\<close> always holds.
\<close>

definition batchStep ::
  "jsobj list \<times> jsobj list \<times> associationPair list \<Rightarrow> row \<Rightarrow>
   jsobj list \<times> jsobj list \<times> associationPair list" where
  "batchStep acc r =
     (case acc of (accountBatch, contactBatch, associationPairs) \<Rightarrow>
        (let accountData = mapAccountFields r;
             contactData = mapContactFields r
         in (case accountData of Some a \<Rightarrow> accountBatch @ [a] | None \<Rightarrow> accountBatch,
             contactBatch @ [contactData],
             case accountData of
               Some a \<Rightarrow>
                 associationPairs @
                   [\<lparr>accountId = getProp a ''id'', contactEmail = getProp contactData ''email''\<rparr>]
             | None \<Rightarrow> associationPairs)))"

definition makeBatch :: "row list \<Rightarrow> nat \<Rightarrow> batch" where
  "makeBatch rows i =
     (case foldl batchStep ([], [], []) (take batchSize (drop i rows)) of
        (accountBatch, contactBatch, associationPairs) \<Rightarrow>
          \<lparr>accounts = accountBatch, contacts = contactBatch, associations = associationPairs,
           batchNumber = i div batchSize + 1,
           totalBatches = (length rows + batchSize - 1) div batchSize\<rparr>)"

text \<open>The loop \<open>for (let i = 0; i < activeRecords.length; i += batchSize)\<close>, on the slice
  \<open>activeRecords.slice(i, i + batchSize)\<close>; the parameter \<open>activeRecords\<close> is \<open>rows\<close> here.\<close>

function groupLoop :: "row list \<Rightarrow> nat \<Rightarrow> batch list" where
  "groupLoop rows i =
     (if i < length rows
      then makeBatch rows i # groupLoop rows (i + batchSize)
      else [])"
  by pat_completeness auto
termination
  by (relation "measure (\<lambda>(rs, i). length rs - i)") (auto simp: batchSize_def)

declare groupLoop.simps [simp del]

definition groupForBatchProcessing :: "row list \<Rightarrow> batch list" where
  "groupForBatchProcessing rows = groupLoop rows 0"

subsection \<open>\<open>categorizeRecordsByExistence\<close>\<close>

record strategy =
  toCreate :: "row list"
  toUpdate :: "row list"
  totalOperations :: nat

text \<open>\<open>Set.prototype.has\<close> on a set of strings.\<close>

definition setHas :: "string set \<Rightarrow> jsval \<Rightarrow> bool" where
  "setHas A v = (case v of JString s \<Rightarrow> s \<in> A | _ \<Rightarrow> False)"

text \<open>
  The body of \<open>allRecords.forEach\<close>, on \<open>recordsToCreate\<close> and \<open>recordsToUpdate\<close>. The two
  last branches of the source push on the same list.
\<close>

definition categorizeStep ::
  "string set \<Rightarrow> string set \<Rightarrow> row list \<times> row list \<Rightarrow> row \<Rightarrow> row list \<times> row list" where
  "categorizeStep existingAccountIds existingContactEmails acc r =
     (case acc of (recordsToCreate, recordsToUpdate) \<Rightarrow>
        (let accountData = mapAccountFields r;
             contactData = mapContactFields r;
             activeSub = convertToBoolean (rowGet r ''active_sub'')
         in case accountData of
              None \<Rightarrow> (recordsToCreate, recordsToUpdate)
            | Some a \<Rightarrow>
                (let accountExists = setHas existingAccountIds (getProp a ''id'');
                     contactExists = setHas existingContactEmails (getProp contactData ''email'')
                 in if \<not> accountExists \<or> \<not> contactExists
                    then (recordsToCreate @ [r], recordsToUpdate)
                    else if activeSub then (recordsToCreate, recordsToUpdate @ [r])
                    else (recordsToCreate, recordsToUpdate @ [r]))))"

definition categorizeRecordsByExistence ::
  "row list \<Rightarrow> string set \<Rightarrow> string set \<Rightarrow> strategy" where
  "categorizeRecordsByExistence allRecords existingAccountIds existingContactEmails =
     (case foldl (categorizeStep existingAccountIds existingContactEmails) ([], []) allRecords of
        (recordsToCreate, recordsToUpdate) \<Rightarrow>
          \<lparr>toCreate = recordsToCreate, toUpdate = recordsToUpdate,
           totalOperations = length recordsToCreate + length recordsToUpdate\<rparr>)"

text \<open>
  The two keys a row is looked up by: its account business id, which is \<open>user_id\<close> as the
  account payload carries it (trimmed), and its email.
\<close>

definition businessId :: "row \<Rightarrow> string" where
  "businessId r = (case rowGet r ''user_id'' of Some u \<Rightarrow> trim u | None \<Rightarrow> [])"

definition emailOf :: "row \<Rightarrow> string" where
  "emailOf r = (case rowGet r ''email'' of Some e \<Rightarrow> e | None \<Rightarrow> [])"

section \<open>The client (\<open>HighPerformanceOAuthClient\<close>)\<close>

text \<open>
  What the remote store returns for an object: its remote identifier (the property \<open>id\<close>
  of the result) and its \<open>properties\<close>. An error is thrown with an optional numeric
  \<open>code\<close> (the HTTP status, when the request was answered) and a \<open>message\<close>.
\<close>

record remoteObject =
  id_hs :: string
  properties :: jsobj

datatype jsError = JsError (code: "nat option") (message: string)

subsection \<open>\<open>identifyDeactivations\<close>\<close>

text \<open>
  An account to deactivate (\<open>{hubspotId, accountId, updateData}\<close>); the field \<open>accountId\<close>
  is \<open>accountId_d\<close> here, the name being taken by the association pairs.
\<close>

record deactivation =
  hubspotId :: string
  accountId_d :: jsval
  updateData :: jsobj

text \<open>
  The body of \<open>activeAccounts.forEach\<close>; \<open>activeAccounts\<close> is what \<open>searchActiveAccounts\<close>
  resolved with. \<open>deactivationMap.has\<close> and \<open>deactivationMap.get\<close> find string keys only.
\<close>

definition identifyStep ::
  "(string \<rightharpoonup> jsobj) \<Rightarrow> deactivation list \<Rightarrow> remoteObject \<Rightarrow> deactivation list" where
  "identifyStep deactivationMap accountsToDeactivate account =
     (let accId = getProp (properties account) ''id''
      in case accId of
           JString s \<Rightarrow>
             (case deactivationMap s of
                Some entry \<Rightarrow>
                  accountsToDeactivate @
                    [\<lparr>hubspotId = id_hs account, accountId_d = accId, updateData = entry\<rparr>]
              | None \<Rightarrow> accountsToDeactivate)
         | _ \<Rightarrow> accountsToDeactivate)"

definition identifyDeactivations ::
  "(string \<rightharpoonup> jsobj) \<Rightarrow> remoteObject list \<Rightarrow> deactivation list" where
  "identifyDeactivations deactivationMap activeAccounts =
     foldl (identifyStep deactivationMap) [] activeAccounts"

subsection \<open>Token refresh and retry: \<open>batchCreateAccounts\<close>, \<open>batchSearchAccounts\<close>\<close>














section \<open>The integration (\<open>HighPerformanceIntegration\<close>)\<close>

text \<open>
  The integration holds the statistics and talks to the remote store through the client
  it was given (\<open>this.hubspot\<close>). Here the client is a parameter: a function that, given the
  client calls made so far and the call being made, says whether the call resolves, and
  with what, or rejects, and with which error. The state of the integration is its
  statistics, without the elapsed time, and the list of the client calls it has made.

  Batches are written as one run after the other, in the order in which
  \<open>processBatchOperations\<close> starts them. In the source they overlap at their \<open>await\<close>s;
  every update of a counter is a single \<open>+=\<close> or \<open>++\<close> with no \<open>await\<close> inside, so the
  counters at the end are the same sums in any interleaving. The answer to a call may
  depend on every call made before it, so whatever answers the batches get in an
  interleaved run, some client here gives each batch the same answers.
\<close>

datatype call =
    SearchAccounts "string list"
  | SearchContacts "string list"
  | SearchActiveAccounts
  | CreateAccounts "jsobj list"
  | CreateContacts "jsobj list"
  | UpdateAccounts "deactivation list"
  | CreateAssociations "associationPair list" "remoteObject list" "remoteObject list"

type_synonym hubspot = "call list \<Rightarrow> call \<Rightarrow> jsError + remoteObject list"

record integration =
  accountsCreated :: nat
  accountsUpdated :: nat
  contactsCreated :: nat
  contactsUpdated :: nat
  associationsCreated :: nat
  errors :: nat
  batchesProcessed :: nat
  calls :: "call list"

definition newIntegration :: integration where
  "newIntegration =
     \<lparr>accountsCreated = 0, accountsUpdated = 0, contactsCreated = 0, contactsUpdated = 0,
      associationsCreated = 0, errors = 0, batchesProcessed = 0, calls = []\<rparr>"

definition invoke ::
  "hubspot \<Rightarrow> integration \<Rightarrow> call \<Rightarrow> (jsError + remoteObject list) \<times> integration" where
  "invoke h st c = (h (calls st) c, st\<lparr>calls := calls st @ [c]\<rparr>)"

subsection \<open>\<open>getExistingDataBatch\<close>\<close>

text \<open>\<open>Array.from\<close> of a \<open>Set\<close>: the elements in the order of their first insertion.\<close>

definition setToArray :: "'a list \<Rightarrow> 'a list" where
  "setToArray xs = rev (remdups (rev xs))"

definition truthyColumn :: "string \<Rightarrow> row list \<Rightarrow> string list" where
  "truthyColumn k rows =
     concat (map (\<lambda>r. case rowGet r k of Some v \<Rightarrow> (if truthy (JString v) then [v] else [])
                       | None \<Rightarrow> []) rows)"

definition truthyProperty :: "string \<Rightarrow> remoteObject list \<Rightarrow> string set" where
  "truthyProperty k results =
     set (concat (map (\<lambda>ob. case getProp (properties ob) k of
                               JString v \<Rightarrow> (if truthy (JString v) then [v] else [])
                             | _ \<Rightarrow> []) results))"

record existingData =
  accountIds :: "string set"
  contactEmails :: "string set"
  existingAccounts :: "remoteObject list"
  existingContacts :: "remoteObject list"

text \<open>
  Both searches are started before either is awaited (\<open>Promise.all\<close>); if one rejects,
  the method throws.
\<close>

definition getExistingDataBatch ::
  "hubspot \<Rightarrow> integration \<Rightarrow> row list \<Rightarrow> (jsError + existingData) \<times> integration" where
  "getExistingDataBatch h st allRecords =
     (case invoke h st (SearchAccounts (setToArray (truthyColumn ''user_id'' allRecords))) of
        (ra, st1) \<Rightarrow>
          (case invoke h st1 (SearchContacts (setToArray (truthyColumn ''email'' allRecords))) of
             (rc, st2) \<Rightarrow>
               (case (ra, rc) of
                  (Inr accs, Inr cons) \<Rightarrow>
                    (Inr \<lparr>accountIds = truthyProperty ''id'' accs,
                          contactEmails = truthyProperty ''email'' cons,
                          existingAccounts = accs, existingContacts = cons\<rparr>, st2)
                | (Inl e, _) \<Rightarrow> (Inl e, st2)
                | (_, Inl e) \<Rightarrow> (Inl e, st2))))"

subsection \<open>\<open>processDeactivations\<close>\<close>

text \<open>
  \<open>this.hubspot.identifyDeactivations\<close> is the search for the active accounts followed by
  \<open>identifyDeactivations\<close> above.
\<close>

definition processDeactivations ::
  "hubspot \<Rightarrow> integration \<Rightarrow> row list \<Rightarrow> jsError option \<times> integration" where
  "processDeactivations h st inactive =
     (if length inactive = 0 then (None, st)
      else (let deactivationMap = createDeactivationMap inactive
            in case invoke h st SearchActiveAccounts of
                 (Inl e, st1) \<Rightarrow> (Some e, st1)
               | (Inr activeAccounts, st1) \<Rightarrow>
                   (let accountsToDeactivate = identifyDeactivations deactivationMap activeAccounts
                    in if length accountsToDeactivate > 0 then
                         (case invoke h st1 (UpdateAccounts accountsToDeactivate) of
                            (Inl e, st2) \<Rightarrow> (Some e, st2)
                          | (Inr deactivationResults, st2) \<Rightarrow>
                              (None, st2\<lparr>accountsUpdated :=
                                             accountsUpdated st2 + length deactivationResults\<rparr>))
                       else (None, st1))))"

subsection \<open>\<open>processSingleBatch\<close>\<close>

datatype operation = Create | Update

record batchResult =
  operation :: operation
  batchNum :: nat
  success :: bool
  error :: "string option"

text \<open>Decimal digits of an array index, for the template literals.\<close>

fun showNat :: "nat \<Rightarrow> string" where
  "showNat n =
     (if n < 10 then [''0123456789'' ! n]
      else showNat (n div 10) @ [''0123456789'' ! (n mod 10)])"

declare showNat.simps [simp del]

definition transformAccount :: "jsobj \<Rightarrow> jsobj" where
  "transformAccount account =
     filter (\<lambda>(k, v). k \<noteq> ''ever_had_subscription'')
       (map (\<lambda>(k, v).
               if k = ''active_subscription'' then
                 (k, if v = JString ''true'' then JBoolean True
                     else if v = JString ''false'' then JBoolean False else v)
               else (k, v)) account)"

definition simulated :: "string \<Rightarrow> jsobj list \<Rightarrow> remoteObject list" where
  "simulated prefix payloads =
     map (\<lambda>(payload, index). \<lparr>id_hs = prefix @ showNat index, properties = payload\<rparr>)
       (zip payloads [0 ..< length payloads])"

text \<open>
  The first part of the \<open>try\<close> block, up to the two result lists. For \<open>'create'\<close> the two
  client calls are made (each only for a non-empty list) and then awaited together; when
  both reject, \<open>Promise.all\<close> rejects with the error that came first, taken here to be
  that of the accounts. For \<open>'update'\<close> no client call is made.
\<close>

definition writeBatch ::
  "hubspot \<Rightarrow> integration \<Rightarrow> batch \<Rightarrow> operation \<Rightarrow>
   (jsError + remoteObject list \<times> remoteObject list) \<times> integration" where
  "writeBatch h st b opn =
     (case opn of
        Create \<Rightarrow>
          (let transformedAccounts = map transformAccount (accounts b)
           in case (if length (accounts b) > 0 then invoke h st (CreateAccounts transformedAccounts)
                    else (Inr [], st)) of
                (ra, st1) \<Rightarrow>
                  (case (if length (contacts b) > 0 then invoke h st1 (CreateContacts (contacts b))
                         else (Inr [], st1)) of
                     (rc, st2) \<Rightarrow>
                       (case (ra, rc) of
                          (Inr accountResults, Inr contactResults) \<Rightarrow>
                            (Inr (accountResults, contactResults),
                             st2\<lparr>accountsCreated := accountsCreated st2 + length accountResults,
                                 contactsCreated := contactsCreated st2 + length contactResults\<rparr>)
                        | (Inl e, _) \<Rightarrow> (Inl e, st2)
                        | (_, Inl e) \<Rightarrow> (Inl e, st2))))
      | Update \<Rightarrow>
          (let accountResults = simulated ''updated-account-'' (accounts b);
               contactResults = simulated ''updated-contact-'' (contacts b)
           in (Inr (accountResults, contactResults),
               st\<lparr>accountsUpdated := accountsUpdated st + length accountResults,
                  contactsUpdated := contactsUpdated st + length contactResults\<rparr>)))"

text \<open>The whole \<open>try\<close> block: \<open>Some e\<close> when it throws \<open>e\<close>.\<close>

definition tryBatch ::
  "hubspot \<Rightarrow> integration \<Rightarrow> batch \<Rightarrow> operation \<Rightarrow> jsError option \<times> integration" where
  "tryBatch h st b opn =
     (case writeBatch h st b opn of
        (Inl e, st1) \<Rightarrow> (Some e, st1)
      | (Inr (accountResults, contactResults), st1) \<Rightarrow>
          if length (associations b) > 0 \<and> length accountResults > 0 \<and> length contactResults > 0
          then (case invoke h st1 (CreateAssociations (associations b) accountResults contactResults) of
                  (Inl e, st2) \<Rightarrow> (Some e, st2)
                | (Inr associationResults, st2) \<Rightarrow>
                    (None, st2\<lparr>associationsCreated :=
                                   associationsCreated st2 + length associationResults,
                                 batchesProcessed := batchesProcessed st2 + 1\<rparr>))
          else (None, st1\<lparr>batchesProcessed := batchesProcessed st1 + 1\<rparr>))"

definition processSingleBatch ::
  "hubspot \<Rightarrow> integration \<Rightarrow> batch \<Rightarrow> operation \<Rightarrow> nat \<Rightarrow> nat \<Rightarrow> batchResult \<times> integration" where
  "processSingleBatch h st b opn num nTotal =
     (case tryBatch h st b opn of
        (None, st1) \<Rightarrow>
          (\<lparr>operation = opn, batchNum = num, success = True, error = None\<rparr>, st1)
      | (Some e, st1) \<Rightarrow>
          (\<lparr>operation = opn, batchNum = num, success = False, error = Some (message e)\<rparr>,
           st1\<lparr>errors := errors st1 + 1\<rparr>))"

subsection \<open>\<open>processBatchOperations\<close>, \<open>processBatchesWithConcurrency\<close>\<close>

text \<open>
  \<open>processBatchOperations\<close> starts one \<open>processSingleBatch\<close> per batch, the creation
  batches first, numbered from 1 within their kind. A started batch is a promise that
  settles as fulfilled with a result or as rejected with a reason.
\<close>

fun startBatches ::
  "hubspot \<Rightarrow> integration \<Rightarrow> (batch \<times> operation \<times> nat \<times> nat) list \<Rightarrow>
   (jsError + batchResult) list \<times> integration" where
  "startBatches h st [] = ([], st)"
| "startBatches h st ((b, opn, num, nTotal) # rest) =
     (case processSingleBatch h st b opn num nTotal of
        (res, st1) \<Rightarrow>
          (case startBatches h st1 rest of
             (settled, st2) \<Rightarrow> (Inr res # settled, st2)))"

definition settleStep ::
  "batchResult list \<times> integration \<Rightarrow> jsError + batchResult \<Rightarrow> batchResult list \<times> integration" where
  "settleStep acc p =
     (case acc of (results, st) \<Rightarrow>
        (case p of
           Inr v \<Rightarrow> (results @ [v], st)
         | Inl reason \<Rightarrow> (results, st\<lparr>errors := errors st + 1\<rparr>)))"

text \<open>
  The loop \<open>for (let i = 0; i < batchPromises.length; i += maxConcurrency)\<close> over the
  settled promises. It is called with \<open>maxConcurrency = 5\<close>; at 0 the loop of the source
  would not advance, and the function here stops.
\<close>

function wavesLoop ::
  "(jsError + batchResult) list \<Rightarrow> nat \<Rightarrow> nat \<Rightarrow> batchResult list \<times> integration \<Rightarrow>
   batchResult list \<times> integration" where
  "wavesLoop batchPromises maxConcurrency i acc =
     (if i < length batchPromises \<and> 0 < maxConcurrency then
        wavesLoop batchPromises maxConcurrency (i + maxConcurrency)
          (foldl settleStep acc (take maxConcurrency (drop i batchPromises)))
      else acc)"
  by pat_completeness auto
termination
  by (relation "measure (\<lambda>(ps, m, i, acc). length ps - i)") auto

declare wavesLoop.simps [simp del]

definition processBatchesWithConcurrency ::
  "integration \<Rightarrow> (jsError + batchResult) list \<Rightarrow> nat \<Rightarrow> batchResult list \<times> integration" where
  "processBatchesWithConcurrency st batchPromises maxConcurrency =
     wavesLoop batchPromises maxConcurrency 0 ([], st)"

definition numbered :: "batch list \<Rightarrow> operation \<Rightarrow> (batch \<times> operation \<times> nat \<times> nat) list" where
  "numbered bs opn = map (\<lambda>(b, index). (b, opn, index + 1, length bs)) (zip bs [0 ..< length bs])"

definition processBatchOperations ::
  "hubspot \<Rightarrow> integration \<Rightarrow> row list \<Rightarrow> row list \<Rightarrow> batchResult list \<times> integration" where
  "processBatchOperations h st recordsToCreate recordsToUpdate =
     (let createBatches = groupForBatchProcessing recordsToCreate;
          updateBatches = groupForBatchProcessing recordsToUpdate
      in case startBatches h st (numbered createBatches Create @ numbered updateBatches Update) of
           (allBatchPromises, st1) \<Rightarrow> processBatchesWithConcurrency st1 allBatchPromises 5)"

subsection \<open>\<open>processCSVHighPerformance\<close>\<close>

text \<open>
  The run, from the rows that \<open>parseCSV\<close> resolved with (\<open>rawData\<close>). An error of the read
  phase or of the deactivations is counted and thrown again; otherwise the statistics
  are returned.
\<close>

definition processCSVHighPerformance :: "hubspot \<Rightarrow> integration \<Rightarrow> row list \<Rightarrow> (jsError + integration) \<times> integration" where
  "processCSVHighPerformance h st rawData =
     (let filterResult = filterRecordsForProcessing rawData
      in case getExistingDataBatch h st (allRecordsForCreation filterResult) of
           (Inl e, st1) \<Rightarrow> (Inl e, st1\<lparr>errors := errors st1 + 1\<rparr>)
         | (Inr existing, st1) \<Rightarrow>
             (let plan = categorizeRecordsByExistence (allRecordsForCreation filterResult)
                           (accountIds existing) (contactEmails existing)
              in case processDeactivations h st1 (inactiveRecords filterResult) of
                   (Some e, st2) \<Rightarrow> (Inl e, st2\<lparr>errors := errors st2 + 1\<rparr>)
                 | (None, st2) \<Rightarrow>
                     (case processBatchOperations h st2 (toCreate plan) (toUpdate plan) of
                        (batchResults, st3) \<Rightarrow> (Inr st3, st3))))"

section \<open>Notions used to state the properties\<close>

text \<open>
  A column is blank when it is missing, empty or white space only. A row is rejected
  when \<open>user_id\<close> or \<open>email\<close> is blank or the email is not of the shape
  \<open>local@domain.tld\<close>.
\<close>

definition blankColumn :: "string option \<Rightarrow> bool" where
  "blankColumn v = (case v of None \<Rightarrow> True | Some s \<Rightarrow> list_all isWhitespace s)"

definition malformedEmail :: "string option \<Rightarrow> bool" where
  "malformedEmail v = (case v of None \<Rightarrow> True | Some e \<Rightarrow> \<not> emailShape e)"

definition rejectedRow :: "row \<Rightarrow> bool" where
  "rejectedRow r =
     (blankColumn (rowGet r ''user_id'') \<or> blankColumn (rowGet r ''email'') \<or>
      malformedEmail (rowGet r ''email''))"

text \<open>
  The subscription counts: the property of the payload and the column it is read from.
  \<open>hexInput\<close> says that \<open>parseInt\<close> reads its argument in radix 16.
\<close>

definition countColumns :: "(string \<times> string) list" where
  "countColumns =
     [(''weekly_subscriptions'', ''weekly_sub_count''),
      (''monthly_subscriptions'', ''monthly_sub_count''),
      (''daily_subscriptions'', ''daily_sub_count'')]"

definition hexInput :: "string option \<Rightarrow> bool" where
  "hexInput v = hexPrefixed (stripSign (dropWhile isWhitespace (ToString v)))"

text \<open>The deactivations that one active account of the remote store gives rise to.\<close>

definition writesFor :: "(string \<rightharpoonup> jsobj) \<Rightarrow> remoteObject \<Rightarrow> deactivation list" where
  "writesFor m account =
     (case getProp (properties account) ''id'' of
        JString s \<Rightarrow>
          (case m s of
             Some entry \<Rightarrow> [\<lparr>hubspotId = id_hs account, accountId_d = JString s, updateData = entry\<rparr>]
           | None \<Rightarrow> [])
      | _ \<Rightarrow> [])"

section \<open>Sample inputs\<close>

text \<open>Rows used where a theorem is applied to a concrete input.\<close>

definition rowNew :: row where
  "rowNew = [(''user_id'', ''U1''), (''email'', ''a@b.com''), (''user_type'', ''MP''),
             (''active_sub'', ''true''), (''weekly_sub_count'', ''2''),
             (''monthly_sub_count'', ''3.9''), (''daily_sub_count'', ''abc'')]"

definition rowOld :: row where
  "rowOld = [(''user_id'', ''U2''), (''email'', ''c@d.org''), (''user_type'', ''WIX''),
             (''active_sub'', ''false''), (''weekly_sub_count'', ''4''),
             (''monthly_sub_count'', ''0''), (''daily_sub_count'', ''1'')]"

definition rowBadEmail :: row where
  "rowBadEmail = [(''user_id'', ''U3''), (''email'', ''not-an-email''), (''active_sub'', ''true'')]"

definition rowHex :: row where
  "rowHex = [(''user_id'', ''U4''), (''email'', ''e@f.io''), (''active_sub'', ''false''),
             (''weekly_sub_count'', ''0x1F'')]"

definition rowInherited :: row where
  "rowInherited = [(''user_id'', ''U5''), (''email'', ''g@h.net''), (''user_type'', ''constructor'')]"

text \<open>The account payloads of \<open>rowNew\<close>, \<open>rowOld\<close>, \<open>rowHex\<close> and \<open>rowInherited\<close>.\<close>

definition accountNew :: jsobj where
  "accountNew =
     [(''id'', JString ''U1''), (''account_type'', JString ''MP''),
      (''active_subscription'', JString ''true''), (''weekly_subscriptions'', JNumber 2),
      (''monthly_subscriptions'', JNumber 3), (''daily_subscriptions'', JNumber 0),
      (''ever_had_subscription'', JString ''true'')]"

definition accountOld :: jsobj where
  "accountOld =
     [(''id'', JString ''U2''), (''account_type'', JString ''USAMPS''),
      (''active_subscription'', JString ''false''), (''weekly_subscriptions'', JNumber 4),
      (''monthly_subscriptions'', JNumber 0), (''daily_subscriptions'', JNumber 1),
      (''ever_had_subscription'', JString ''false'')]"

definition accountHex :: jsobj where
  "accountHex =
     [(''id'', JString ''U4''),
      (''active_subscription'', JString ''false''), (''weekly_subscriptions'', JNumber 31),
      (''monthly_subscriptions'', JNumber 0), (''daily_subscriptions'', JNumber 0),
      (''ever_had_subscription'', JString ''false'')]"

definition accountInherited :: jsobj where
  "accountInherited =
     [(''id'', JString ''U5''), (''account_type'', JInherited ''constructor''),
      (''active_subscription'', JString ''false''), (''weekly_subscriptions'', JNumber 0),
      (''monthly_subscriptions'', JNumber 0), (''daily_subscriptions'', JNumber 0),
      (''ever_had_subscription'', JString ''false'')]"

text \<open>The entry of \<open>rowOld\<close> in the deactivation map.\<close>

definition entryOld :: jsobj where
  "entryOld =
     [(''user_id'', JString ''U2''), (''active_subscription'', JBoolean False),
      (''weekly_subscriptions'', JNumber 4), (''monthly_subscriptions'', JNumber 0),
      (''daily_subscriptions'', JNumber 1)]"

text \<open>The contact payloads of \<open>rowNew\<close> and \<open>rowOld\<close>.\<close>

definition contactNew :: jsobj where
  "contactNew = [(''email'', JString ''a@b.com''), (''user_type'', JString ''MP'')]"

definition contactOld :: jsobj where
  "contactOld = [(''email'', JString ''c@d.org''), (''user_type'', JString ''USAMPS'')]"

text \<open>Two accounts that the remote store reports as active.\<close>

definition remoteActive :: "remoteObject list" where
  "remoteActive =
     [\<lparr>id_hs = ''901'', properties = [(''id'', JString ''U2''), (''active_subscription'', JString ''true'')]\<rparr>,
      \<lparr>id_hs = ''902'', properties = [(''id'', JString ''U9''), (''active_subscription'', JString ''true'')]\<rparr>]"

text \<open>
  A client for which the remote store already holds \<open>rowOld\<close> and rejects every creation
  of accounts, and the batch of \<open>rowNew\<close>.
\<close>

definition rejectsCreate :: hubspot where
  "rejectsCreate log c =
     (case c of
        SearchAccounts ids \<Rightarrow> Inr [\<lparr>id_hs = ''901'', properties = [(''id'', JString ''U2'')]\<rparr>]
      | SearchContacts emails \<Rightarrow>
          Inr [\<lparr>id_hs = ''801'', properties = [(''email'', JString ''c@d.org'')]\<rparr>]
      | CreateAccounts inputs \<Rightarrow> Inl (JsError (Some 500) ''Server Error'')
      | _ \<Rightarrow> Inr [])"








section \<open>Strings and validation\<close>

lemma trim_Nil_iff: "trim s = [] \<longleftrightarrow> list_all isWhitespace s"
proof -
  have "dropWhile isWhitespace (rev (dropWhile isWhitespace s)) = [] \<longleftrightarrow> list_all isWhitespace s"
    by (induction s) (auto simp: dropWhile_eq_Nil_conv list_all_iff)
  then show ?thesis by (simp add: trim_def)
qed

lemma trim_id: "list_all (\<lambda>c. \<not> isWhitespace c) s \<Longrightarrow> trim s = s"
proof -
  assume a: "list_all (\<lambda>c. \<not> isWhitespace c) s"
  have d: "\<And>xs. list_all (\<lambda>c. \<not> isWhitespace c) xs \<Longrightarrow> dropWhile isWhitespace xs = xs"
    by (case_tac xs) auto
  from a have "list_all (\<lambda>c. \<not> isWhitespace c) (rev s)" by (simp add: list_all_iff)
  with a d show ?thesis by (simp add: trim_def)
qed

lemma emailChar_dot: "emailChar (CHR ''.'')"
  by (simp add: emailChar_def isWhitespace_def)

lemma emailShape_imp_valid:
  assumes "emailShape s" shows "isValidEmail s"
proof -
  from assms obtain a b c where s: "s = a @ ''@'' @ b @ ''.'' @ c"
    and ne: "a \<noteq> []" "b \<noteq> []" "c \<noteq> []"
    and ok: "list_all emailChar a" "list_all emailChar b" "list_all emailChar c"
    unfolding emailShape_def by blast
  have nat: "\<not> emailChar (CHR ''@'')" by (simp add: emailChar_def)
  from ok(1) nat have tw: "takeWhile emailChar s = a"
    unfolding s by (simp add: takeWhile_append2 list_all_iff)
  from ok(1) nat have dw: "dropWhile emailChar s = CHR ''@'' # (b @ ''.'' @ c)"
    unfolding s by (simp add: dropWhile_append2 list_all_iff)
  from ne(2) obtain b0 b1 where b: "b = b0 # b1" by (cases b) auto
  have dot: "CHR ''.'' \<in> set (butlast (tl (b @ ''.'' @ c)))"
    using ne(3) by (simp add: b butlast_append)
  show ?thesis
    unfolding isValidEmail_def Let_def tw dw using ne(1) ok dot emailChar_dot by simp
qed


lemma valid_imp_emailShape:
  assumes "isValidEmail s" shows "emailShape s"
proof -
  let ?a = "takeWhile emailChar s"
  from assms have ne: "?a \<noteq> []" by (simp add: isValidEmail_def Let_def)
  from assms obtain d where dw: "dropWhile emailChar s = CHR ''@'' # d"
    and okd: "list_all emailChar d" and dot: "CHR ''.'' \<in> set (butlast (tl d))"
    by (auto simp: isValidEmail_def Let_def split: list.splits)
  from dot obtain d0 t where d: "d = d0 # t" by (cases d) auto
  with dot have tne: "t \<noteq> []" by auto
  then obtain u l where ul: "t = u @ [l]" by (metis rev_exhaust)
  with dot d obtain p q where u: "u = p @ CHR ''.'' # q"
    by (auto simp: in_set_conv_decomp)
  have eq: "?a @ dropWhile emailChar s = s" by (rule takeWhile_dropWhile_id)
  have s: "s = ?a @ ''@'' @ (d0 # p) @ ''.'' @ (q @ [l])"
    by (rule trans [OF eq [symmetric]]) (simp add: dw d ul u)
  have oka: "list_all emailChar ?a"
    unfolding list_all_iff by (auto dest: set_takeWhileD)
  from okd have okb: "list_all emailChar (d0 # p)" and okc: "list_all emailChar (q @ [l])"
    by (simp_all add: d ul u)
  show ?thesis
    unfolding emailShape_def
  proof (intro exI conjI)
    show "s = ?a @ ''@'' @ (d0 # p) @ ''.'' @ (q @ [l])" by (rule s)
  qed (use ne oka okb okc in simp_all)
qed

lemma isValidEmail_iff: "isValidEmail s \<longleftrightarrow> emailShape s"
  using emailShape_imp_valid valid_imp_emailShape by blast

lemma not_ws_at_dot: "\<not> isWhitespace (CHR ''@'')" "\<not> isWhitespace (CHR ''.'')"
  by (simp_all add: isWhitespace_def)

lemma isValidEmail_chars:
  assumes "isValidEmail e" shows "list_all (\<lambda>c. \<not> isWhitespace c) e \<and> e \<noteq> []"
proof -
  from assms have "emailShape e" by (rule valid_imp_emailShape)
  then obtain a b c where e: "e = a @ ''@'' @ b @ ''.'' @ c"
    and ok: "list_all emailChar a" "list_all emailChar b" "list_all emailChar c"
    unfolding emailShape_def by blast
  have "\<And>xs. list_all emailChar xs \<Longrightarrow> list_all (\<lambda>c. \<not> isWhitespace c) xs"
    by (simp add: list_all_iff emailChar_def)
  with ok show ?thesis
    unfolding e by (simp add: not_ws_at_dot)
qed

lemma trim_Nil [simp]: "trim [] = []"
  by (simp add: trim_def)

lemma validateRow_iff:
  "validateRow r \<longleftrightarrow>
     (\<exists>u. rowGet r ''user_id'' = Some u \<and> trim u \<noteq> []) \<and>
     (\<exists>e. rowGet r ''email'' = Some e \<and> isValidEmail e)"
proof (cases "rowGet r ''user_id''")
  case None
  then show ?thesis by (simp add: validateRow_def validateRowWith_def fieldMissing_def)
next
  case u: (Some u)
  show ?thesis
  proof (cases "rowGet r ''email''")
    case None
    then show ?thesis by (simp add: validateRow_def validateRowWith_def fieldMissing_def)
  next
    case (Some e)
    have "isValidEmail e \<Longrightarrow> e \<noteq> [] \<and> trim e \<noteq> []"
      using isValidEmail_chars [of e] trim_id [of e] by auto
    with u Some show ?thesis
      by (auto simp: validateRow_def validateRowWith_def fieldMissing_def)
  qed
qed


lemma getProp_cleanObject:
  "distinct (map fst ob) \<Longrightarrow>
   getProp (cleanObject ob) k =
     (if keepValue (getProp ob k) then cleanValue (getProp ob k) else JUndefined)"
proof (induction ob)
  case Nil
  then show ?case by (simp add: getProp_def cleanObject_def keepValue_def)
next
  case (Cons p ob)
  obtain k' v' where p: "p = (k', v')" by (cases p)
  from Cons.prems have nk: "k' \<notin> fst ` set ob" and d: "distinct (map fst ob)" by (auto simp: p)
  from nk have none: "map_of ob k' = None" by (simp add: map_of_eq_None_iff)
  have nk2: "map_of (cleanObject ob) k' = None"
    using nk by (force simp: map_of_eq_None_iff cleanObject_def)
  have co: "cleanObject ((k', v') # ob) =
      (if keepValue v' then [(k', cleanValue v')] else []) @ cleanObject ob"
    by (simp add: cleanObject_def)
  show ?case
  proof (cases "k = k'")
    case True
    then show ?thesis
      using none nk2 unfolding p by (simp add: co getProp_def)
  next
    case False
    then show ?thesis
      using Cons.IH [OF d] unfolding p by (simp add: co getProp_def)
  qed
qed


lemma accountMapping_distinct: "distinct (map fst (accountMapping r))"
  by (simp add: accountMapping_def)

lemma getProp_accountMapping:
  "getProp (accountMapping r) ''id'' = ofField (rowGet r ''user_id'')"
  "getProp (accountMapping r) ''account_type'' = mapAccountType (rowGet r ''user_type'')"
  "getProp (accountMapping r) ''active_subscription'' = boolString (convertToBoolean (rowGet r ''active_sub''))"
  "getProp (accountMapping r) ''weekly_subscriptions'' = countOf (rowGet r ''weekly_sub_count'')"
  "getProp (accountMapping r) ''monthly_subscriptions'' = countOf (rowGet r ''monthly_sub_count'')"
  "getProp (accountMapping r) ''daily_subscriptions'' = countOf (rowGet r ''daily_sub_count'')"
  "getProp (accountMapping r) ''ever_had_subscription'' = boolString (convertToBoolean (rowGet r ''active_sub''))"
  by (simp_all add: getProp_def accountMapping_def)

lemma mapAccountFields_Some:
  "mapAccountFields r = Some a \<longleftrightarrow>
     a = cleanObject (accountMapping r) \<and>
     (\<exists>u. rowGet r ''user_id'' = Some u \<and> trim u \<noteq> [])"
  by (auto simp: mapAccountFields_def Let_def getProp_cleanObject accountMapping_distinct
      getProp_accountMapping ofField_def keepValue_def cleanValue_def split: option.splits)

lemma mapAccountFields_id:
  "mapAccountFields r = Some a \<Longrightarrow> rowGet r ''user_id'' = Some u \<Longrightarrow>
     getProp a ''id'' = JString (trim u)"
  by (auto simp: mapAccountFields_Some getProp_cleanObject accountMapping_distinct
      getProp_accountMapping ofField_def keepValue_def cleanValue_def)

lemma contactMapping_distinct: "distinct (map fst (contactMapping r))"
  by (simp add: contactMapping_def)

lemma getProp_contactMapping:
  "getProp (contactMapping r) ''email'' = ofField (rowGet r ''email'')"
  "getProp (contactMapping r) ''user_type'' = mapAccountType (rowGet r ''user_type'')"
  by (simp_all add: getProp_def contactMapping_def)

lemma mapContactFields_email:
  "getProp (mapContactFields r) ''email'' =
     (case rowGet r ''email'' of None \<Rightarrow> JUndefined
      | Some e \<Rightarrow> if e = [] then JUndefined else JString (trim e))"
  by (simp add: mapContactFields_def getProp_cleanObject contactMapping_distinct
      getProp_contactMapping ofField_def keepValue_def cleanValue_def split: option.splits)


lemmas sample_eval =
  validateRow_def validateRowWith_def fieldMissing_def rowGet_def trim_def isWhitespace_def
  isValidEmail_def emailChar_def

lemma validateRow_samples: "validateRow rowNew" "validateRow rowOld"
  by (simp_all add: rowNew_def rowOld_def sample_eval)

section \<open>Categorization by existence\<close>

lemma categorizeStep_valid:
  assumes "validateRow r"
  shows "categorizeStep A E (c, u) r =
     (if businessId r \<notin> A \<or> emailOf r \<notin> E then (c @ [r], u) else (c, u @ [r]))"
proof -
  from assms obtain uid e where uid: "rowGet r ''user_id'' = Some uid" "trim uid \<noteq> []"
    and e: "rowGet r ''email'' = Some e" "isValidEmail e"
    unfolding validateRow_iff by blast
  from e(2) have te: "trim e = e" "e \<noteq> []"
    using isValidEmail_chars [of e] trim_id [of e] by auto
  from uid obtain a where a: "mapAccountFields r = Some a"
    by (auto simp: mapAccountFields_Some)
  have ida: "getProp a ''id'' = JString (trim uid)"
    using mapAccountFields_id [OF a uid(1)] .
  have em: "getProp (mapContactFields r) ''email'' = JString e"
    by (simp add: mapContactFields_email e te)
  show ?thesis
    by (simp add: categorizeStep_def a ida em setHas_def businessId_def emailOf_def uid e)
qed

lemma categorize_foldl:
  assumes "\<forall>r\<in>set rows. validateRow r"
  shows "foldl (categorizeStep A E) (c, u) rows =
     (c @ filter (\<lambda>r. businessId r \<notin> A \<or> emailOf r \<notin> E) rows,
      u @ filter (\<lambda>r. \<not> (businessId r \<notin> A \<or> emailOf r \<notin> E)) rows)"
  using assms
proof (induction rows arbitrary: c u)
  case Nil
  then show ?case by simp
next
  case (Cons r rows)
  then show ?case by (simp add: categorizeStep_valid)
qed


text \<open>
  C1. On validated records, \<open>categorizeRecordsByExistence\<close> puts a record in \<open>toCreate\<close>
  exactly when its account business id is not in the set of existing account ids or its
  email is not in the set of existing contact emails, and in \<open>toUpdate\<close> otherwise; the
  activity flag plays no part. The two lists keep the input order, and their lengths add
  up to the number of records.
\<close>

theorem categorize_by_existence:
  assumes "\<forall>r\<in>set rows. validateRow r"
  shows "toCreate (categorizeRecordsByExistence rows A E) =
           filter (\<lambda>r. businessId r \<notin> A \<or> emailOf r \<notin> E) rows \<and>
         toUpdate (categorizeRecordsByExistence rows A E) =
           filter (\<lambda>r. businessId r \<in> A \<and> emailOf r \<in> E) rows \<and>
         length (toCreate (categorizeRecordsByExistence rows A E)) +
           length (toUpdate (categorizeRecordsByExistence rows A E)) = length rows"
proof -
  let ?P = "\<lambda>r. businessId r \<notin> A \<or> emailOf r \<notin> E"
  have eq: "(\<lambda>r. \<not> ?P r) = (\<lambda>r. businessId r \<in> A \<and> emailOf r \<in> E)" by auto
  have len: "length (filter ?P rows) + length (filter (\<lambda>r. \<not> ?P r) rows) = length rows"
    by (rule sum_length_filter_compl)
  show ?thesis
    using len unfolding categorizeRecordsByExistence_def categorize_foldl [OF assms] eq
    by simp
qed


theorem categorize_by_existence_witness:
  "validateRow rowNew \<and> validateRow rowOld \<and>
   toCreate (categorizeRecordsByExistence [rowNew, rowOld] {''U2''} {''c@d.org''}) = [rowNew] \<and>
   toUpdate (categorizeRecordsByExistence [rowNew, rowOld] {''U2''} {''c@d.org''}) = [rowOld]"
proof -
  have h: "\<forall>r\<in>set [rowNew, rowOld]. validateRow r"
    by (simp add: validateRow_samples)
  have b: "businessId rowNew = ''U1''" "businessId rowOld = ''U2''"
    "emailOf rowNew = ''a@b.com''" "emailOf rowOld = ''c@d.org''"
    by (simp_all add: businessId_def emailOf_def rowNew_def rowOld_def rowGet_def trim_def
        isWhitespace_def)
  show ?thesis
    using h categorize_by_existence [OF h, of "{''U2''}" "{''c@d.org''}"] by (simp add: b)
qed

section \<open>Filtering\<close>

lemma filterStep_invalid: "\<not> validateRow r \<Longrightarrow> filterStep acc r = acc"
  by (simp add: filterStep_def)

lemma filterStep_eq:
  "filterStep acc r =
     (if validateRow r then
        (if convertToBoolean (rowGet r ''active_sub'')
         then acc\<lparr>activeRecords := activeRecords acc @ [r],
                  allRecordsForCreation := allRecordsForCreation acc @ [r]\<rparr>
         else acc\<lparr>inactiveRecords := inactiveRecords acc @ [r],
                  allRecordsForCreation := allRecordsForCreation acc @ [r]\<rparr>)
      else acc)"
  by (simp add: filterStep_def Let_def)

lemma filter_foldl:
  "foldl filterStep acc rows =
     acc\<lparr>activeRecords := activeRecords acc @
            filter (\<lambda>r. validateRow r \<and> convertToBoolean (rowGet r ''active_sub'')) rows,
         inactiveRecords := inactiveRecords acc @
            filter (\<lambda>r. validateRow r \<and> \<not> convertToBoolean (rowGet r ''active_sub'')) rows,
         allRecordsForCreation := allRecordsForCreation acc @ filter validateRow rows\<rparr>"
proof (induction rows arbitrary: acc)
  case Nil
  then show ?case by simp
next
  case (Cons r rows)
  show ?case
    unfolding foldl_Cons Cons.IH [of "filterStep acc r"] by (simp add: filterStep_eq)
qed

lemma filterRecordsForProcessing_eq:
  "filterRecordsForProcessing rows =
     \<lparr>activeRecords = filter (\<lambda>r. validateRow r \<and> convertToBoolean (rowGet r ''active_sub'')) rows,
      inactiveRecords = filter (\<lambda>r. validateRow r \<and> \<not> convertToBoolean (rowGet r ''active_sub'')) rows,
      allRecordsForCreation = filter validateRow rows,
      totalReduction = 0\<rparr>"
  by (simp add: filterRecordsForProcessing_def filter_foldl)

lemma rejectedRow_iff: "rejectedRow r \<longleftrightarrow> \<not> validateRow r"
proof -
  have b: "\<And>v. blankColumn v \<longleftrightarrow> \<not> (\<exists>u. v = Some u \<and> trim u \<noteq> [])"
    by (auto simp: blankColumn_def trim_Nil_iff split: option.splits)
  have m: "\<And>v. malformedEmail v \<longleftrightarrow> \<not> (\<exists>e. v = Some e \<and> isValidEmail e)"
    by (auto simp: malformedEmail_def isValidEmail_iff split: option.splits)
  have v: "\<And>e. isValidEmail e \<Longrightarrow> trim e \<noteq> []"
    using isValidEmail_chars trim_id by fastforce
  show ?thesis
    unfolding rejectedRow_def validateRow_iff b m using v by blast
qed

text \<open>
  C4, as the code has it. A row whose \<open>user_id\<close> is missing or blank, whose \<open>email\<close> is
  missing or blank, or whose email is not of the shape \<open>local@domain.tld\<close> is in none of
  \<open>activeRecords\<close>, \<open>inactiveRecords\<close> and \<open>allRecordsForCreation\<close>, and the filter goes on
  with the rows after it: its result is the one it gives with the row taken out. No
  count of such rows is kept.
\<close>

theorem rejected_rows_dropped:
  assumes "rejectedRow r"
  shows "r \<notin> set (activeRecords (filterRecordsForProcessing rows)) \<and>
         r \<notin> set (inactiveRecords (filterRecordsForProcessing rows)) \<and>
         r \<notin> set (allRecordsForCreation (filterRecordsForProcessing rows)) \<and>
         filterRecordsForProcessing (before @ r # after) = filterRecordsForProcessing (before @ after)"
proof -
  from assms have "\<not> validateRow r" by (simp add: rejectedRow_iff)
  then show ?thesis by (simp add: filterRecordsForProcessing_eq)
qed

lemma rejected_sample: "rejectedRow rowBadEmail"
  unfolding rejectedRow_iff by (simp add: rowBadEmail_def sample_eval)

theorem rejected_rows_dropped_witness:
  "rejectedRow rowBadEmail \<and>
   rowBadEmail \<notin> set (allRecordsForCreation (filterRecordsForProcessing [rowNew, rowBadEmail, rowOld])) \<and>
   filterRecordsForProcessing [rowNew, rowBadEmail, rowOld] = filterRecordsForProcessing [rowNew, rowOld]"
  using rejected_rows_dropped [OF rejected_sample, of "[rowNew, rowBadEmail, rowOld]" "[rowNew]" "[rowOld]"]
    rejected_sample unfolding append.simps by blast

text \<open>
  C4 as stated asks for the row to be counted as skipped. On the one row \<open>rowBadEmail\<close>
  the result of the filter is the result for no row at all, and a whole run against a
  remote store that finds nothing ends with every counter at 0.
\<close>

theorem skipped_row_not_counted:
  "filterRecordsForProcessing [rowBadEmail] =
     \<lparr>activeRecords = [], inactiveRecords = [], allRecordsForCreation = [], totalReduction = 0\<rparr> \<and>
   processCSVHighPerformance (\<lambda>log c. Inr []) newIntegration [rowBadEmail] =
     (Inr (newIntegration\<lparr>calls := [SearchAccounts [], SearchContacts []]\<rparr>),
      newIntegration\<lparr>calls := [SearchAccounts [], SearchContacts []]\<rparr>)"
proof -
  have nv: "\<not> validateRow rowBadEmail" using rejected_sample by (simp add: rejectedRow_iff)
  have f: "filterRecordsForProcessing [rowBadEmail] =
     \<lparr>activeRecords = [], inactiveRecords = [], allRecordsForCreation = [], totalReduction = 0\<rparr>"
    by (simp add: filterRecordsForProcessing_eq nv)
  have g: "groupForBatchProcessing [] = []"
    by (simp add: groupForBatchProcessing_def groupLoop.simps [of "[]" 0])
  show ?thesis
    by (simp add: f processCSVHighPerformance_def getExistingDataBatch_def invoke_def setToArray_def
        truthyColumn_def truthyProperty_def categorizeRecordsByExistence_def
        processDeactivations_def processBatchOperations_def g numbered_def
        processBatchesWithConcurrency_def newIntegration_def wavesLoop.simps [of "[]"])
qed


section \<open>Payloads\<close>

lemma trim_true_false: "trim ''true'' = ''true''" "trim ''false'' = ''false''"
  by (simp_all add: trim_def isWhitespace_def)

lemma boolString_kept: "keepValue (boolString b)" "cleanValue (boolString b) = boolString b"
  by (simp_all add: keepValue_def cleanValue_def boolString_def trim_true_false)

lemma parseInt_cases: "parseInt v = JNaN \<or> (\<exists>n. parseInt v = JNumber n)"
  by (simp add: parseInt_def Let_def)

lemma countOf_number: "\<exists>n. countOf v = JNumber n"
  using parseInt_cases [of v] by (auto simp: countOf_def jsOr_def)

lemma countOf_kept: "keepValue (countOf v)" "cleanValue (countOf v) = countOf v"
  using countOf_number [of v] by (auto simp: keepValue_def cleanValue_def)

lemma account_payload_properties:
  assumes "mapAccountFields r = Some a"
  shows "getProp a ''active_subscription'' = boolString (convertToBoolean (rowGet r ''active_sub''))"
    and "getProp a ''ever_had_subscription'' = boolString (convertToBoolean (rowGet r ''active_sub''))"
    and "getProp a ''weekly_subscriptions'' = countOf (rowGet r ''weekly_sub_count'')"
    and "getProp a ''monthly_subscriptions'' = countOf (rowGet r ''monthly_sub_count'')"
    and "getProp a ''daily_subscriptions'' = countOf (rowGet r ''daily_sub_count'')"
    and "getProp a ''account_type'' =
           (if keepValue (mapAccountType (rowGet r ''user_type''))
            then cleanValue (mapAccountType (rowGet r ''user_type'')) else JUndefined)"
  using assms
  by (simp_all add: mapAccountFields_Some getProp_cleanObject accountMapping_distinct
      getProp_accountMapping boolString_kept countOf_kept)

text \<open>
  C9. In every account payload that \<open>mapAccountFields\<close> builds, \<open>ever_had_subscription\<close> is
  the same value as \<open>active_subscription\<close>: the string \<open>'true'\<close> when \<open>active_sub\<close> converts
  to true and the string \<open>'false'\<close> otherwise. The subscription counts play no part, so a
  row that is inactive now is marked as never having had a subscription.
\<close>

theorem ever_had_is_active:
  assumes "mapAccountFields r = Some a"
  shows "getProp a ''ever_had_subscription'' = getProp a ''active_subscription'' \<and>
         getProp a ''active_subscription'' =
           JString (if convertToBoolean (rowGet r ''active_sub'') then ''true'' else ''false'')"
  using account_payload_properties(1,2) [OF assms] by (simp add: boolString_def)

lemmas payload_eval =
  mapAccountFields_def accountMapping_def cleanObject_def keepValue_def cleanValue_def
  getProp_def rowGet_def ofField_def mapAccountType_def accountTypeMapping_def
  objectPrototypeNames_def ToString_def jsOr_def boolString_def convertToBoolean_def
  toLowerCase_def toLowerChar_def countOf_def parseInt_def stripSign_def hexPrefixed_def
  isDigit_def digitVal_def digitsValue_def trim_def isWhitespace_def Let_def

lemma mapAccountFields_samples:
  "mapAccountFields rowNew = Some accountNew"
  "mapAccountFields rowOld = Some accountOld"
  "mapAccountFields rowHex = Some accountHex"
  "mapAccountFields rowInherited = Some accountInherited"
  by (simp_all add: rowNew_def rowOld_def rowHex_def rowInherited_def accountNew_def
      accountOld_def accountHex_def accountInherited_def payload_eval)

theorem ever_had_is_active_witness:
  "mapAccountFields rowOld = Some accountOld \<and>
   getProp accountOld ''ever_had_subscription'' = getProp accountOld ''active_subscription'' \<and>
   getProp accountOld ''active_subscription'' = JString ''false''"
proof -
  have "convertToBoolean (rowGet rowOld ''active_sub'') = False"
    by (simp add: rowOld_def payload_eval)
  then show ?thesis
    using ever_had_is_active [OF mapAccountFields_samples(2)] mapAccountFields_samples(2)
    by simp
qed

lemma parseInt_base10: "\<not> hexInput v \<Longrightarrow> parseInt v = parseBase10 v"
  by (simp add: hexInput_def parseInt_def parseBase10_def Let_def)

lemma createDeactivationMap_snoc:
  "createDeactivationMap (rows @ [r]) = deactivationStep (createDeactivationMap rows) r"
  by (simp add: createDeactivationMap_def)

lemma createDeactivationMap_eq:
  "createDeactivationMap rows u =
     (if u \<noteq> [] \<and> filter (\<lambda>r. rowGet r ''user_id'' = Some u) rows \<noteq> []
      then Some (deactivationEntry (last (filter (\<lambda>r. rowGet r ''user_id'' = Some u) rows)) u)
      else None)"
proof (induction rows arbitrary: u rule: rev_induct)
  case Nil
  then show ?case by (simp add: createDeactivationMap_def)
next
  case (snoc r rows)
  show ?case
    unfolding createDeactivationMap_snoc
    by (auto simp: deactivationStep_def snoc.IH split: option.splits)
qed

lemma getProp_deactivationEntry:
  "getProp (deactivationEntry r u) ''user_id'' = JString u"
  "getProp (deactivationEntry r u) ''active_subscription'' = JBoolean False"
  "getProp (deactivationEntry r u) ''weekly_subscriptions'' = countOf (rowGet r ''weekly_sub_count'')"
  "getProp (deactivationEntry r u) ''monthly_subscriptions'' = countOf (rowGet r ''monthly_sub_count'')"
  "getProp (deactivationEntry r u) ''daily_subscriptions'' = countOf (rowGet r ''daily_sub_count'')"
  by (simp_all add: getProp_def deactivationEntry_def)

lemma createDeactivationMap_Some:
  assumes "createDeactivationMap rows u = Some d"
  shows "u \<noteq> [] \<and> (\<exists>r\<in>set rows. rowGet r ''user_id'' = Some u \<and> d = deactivationEntry r u)"
proof -
  let ?rs = "filter (\<lambda>r. rowGet r ''user_id'' = Some u) rows"
  from assms have ne: "u \<noteq> []" "?rs \<noteq> []" and d: "d = deactivationEntry (last ?rs) u"
    by (auto simp: createDeactivationMap_eq split: if_splits)
  from ne(2) have "last ?rs \<in> set ?rs" by (rule last_in_set)
  then have "last ?rs \<in> set rows \<and> rowGet (last ?rs) ''user_id'' = Some u" by simp
  with ne d show ?thesis by blast
qed

text \<open>
  C10, as the code has it. The three subscription counts of an account payload and of
  an entry of the deactivation map are \<open>parseInt(column) || 0\<close>, with \<open>parseInt\<close> as
  JavaScript defines it without a radix: base 10, unless the digits start with \<open>0x\<close> or
  \<open>0X\<close>, which are read in base 16. When there is no such prefix \<open>parseInt\<close> is the
  base-10 parse. An entry of the deactivation map comes from a row with that \<open>user_id\<close>.
\<close>

theorem subscription_counts:
  "(mapAccountFields r = Some a \<longrightarrow>
      (\<forall>(f, c)\<in>set countColumns. getProp a f = jsOr (parseInt (rowGet r c)) (JNumber 0))) \<and>
   (createDeactivationMap rows u = Some d \<longrightarrow>
      (\<exists>r\<in>set rows. rowGet r ''user_id'' = Some u \<and>
         (\<forall>(f, c)\<in>set countColumns. getProp d f = jsOr (parseInt (rowGet r c)) (JNumber 0)))) \<and>
   (\<not> hexInput v \<longrightarrow> parseInt v = parseBase10 v)"
proof (intro conjI impI)
  assume "mapAccountFields r = Some a"
  from account_payload_properties(3-5) [OF this]
  show "\<forall>(f, c)\<in>set countColumns. getProp a f = jsOr (parseInt (rowGet r c)) (JNumber 0)"
    by (simp add: countColumns_def countOf_def)
next
  assume "createDeactivationMap rows u = Some d"
  from createDeactivationMap_Some [OF this] obtain r0 where
    r0: "r0 \<in> set rows" "rowGet r0 ''user_id'' = Some u" "d = deactivationEntry r0 u"
    by blast
  have "\<forall>(f, c)\<in>set countColumns. getProp d f = jsOr (parseInt (rowGet r0 c)) (JNumber 0)"
    by (simp add: countColumns_def r0(3) getProp_deactivationEntry countOf_def)
  with r0 show "\<exists>r\<in>set rows. rowGet r ''user_id'' = Some u \<and>
         (\<forall>(f, c)\<in>set countColumns. getProp d f = jsOr (parseInt (rowGet r c)) (JNumber 0))"
    by blast
next
  assume "\<not> hexInput v"
  then show "parseInt v = parseBase10 v" by (rule parseInt_base10)
qed

lemma createDeactivationMap_rowOld: "createDeactivationMap [rowNew, rowOld] ''U2'' = Some entryOld"
  by (simp add: createDeactivationMap_def deactivationStep_def deactivationEntry_def entryOld_def
      rowNew_def rowOld_def payload_eval)

theorem subscription_counts_witness:
  "mapAccountFields rowNew = Some accountNew \<and>
   getProp accountNew ''weekly_subscriptions'' = JNumber 2 \<and>
   getProp accountNew ''monthly_subscriptions'' = JNumber 3 \<and>
   getProp accountNew ''daily_subscriptions'' = JNumber 0 \<and>
   createDeactivationMap [rowNew, rowOld] ''U2'' = Some entryOld \<and>
   getProp entryOld ''weekly_subscriptions'' = JNumber 4 \<and>
   \<not> hexInput (Some ''3.9'') \<and> parseInt (Some ''3.9'') = parseBase10 (Some ''3.9'') \<and>
   jsOr (parseInt None) (JNumber 0) = JNumber 0 \<and>
   jsOr (parseInt (Some ''0'')) (JNumber 0) = JNumber 0"
proof -
  have h: "\<not> hexInput (Some ''3.9'')"
    by (simp add: hexInput_def payload_eval)
  have e: "jsOr (parseInt None) (JNumber 0) = JNumber 0"
      "jsOr (parseInt (Some ''0'')) (JNumber 0) = JNumber 0"
    by (simp_all add: payload_eval)
  have g: "getProp accountNew ''weekly_subscriptions'' = JNumber 2"
    "getProp accountNew ''monthly_subscriptions'' = JNumber 3"
    "getProp accountNew ''daily_subscriptions'' = JNumber 0"
    "getProp entryOld ''weekly_subscriptions'' = JNumber 4"
    by (simp_all add: getProp_def accountNew_def entryOld_def)
  show ?thesis
    using subscription_counts [of rowNew accountNew "[rowNew, rowOld]" "''U2''" entryOld "Some ''3.9''"]
      mapAccountFields_samples(1) createDeactivationMap_rowOld h e g
    by simp
qed

text \<open>
  C10 as stated says base 10. At the column value \<open>0x1F\<close> the payload holds 31; the
  base-10 parse reads the leading \<open>0\<close> and stops, which gives 0.
\<close>

theorem hex_count_not_base10:
  "mapAccountFields rowHex = Some accountHex \<and>
   rowGet rowHex ''weekly_sub_count'' = Some ''0x1F'' \<and>
   getProp accountHex ''weekly_subscriptions'' = JNumber 31 \<and>
   jsOr (parseBase10 (Some ''0x1F'')) (JNumber 0) = JNumber 0"
  by (simp add: mapAccountFields_samples(3))
     (simp add: rowHex_def accountHex_def getProp_def parseBase10_def payload_eval)

subsection \<open>The enumeration mapping\<close>

lemma mapAccountType_table:
  "mapAccountType (Some ''MP'') = JString ''MP''"
  "mapAccountType (Some ''WIX'') = JString ''USAMPS''"
  "mapAccountType None = JUndefined"
  "k \<noteq> ''MP'' \<Longrightarrow> k \<noteq> ''WIX'' \<Longrightarrow> k \<notin> set objectPrototypeNames \<Longrightarrow>
     mapAccountType (Some k) = JString k"
  by (simp_all add: mapAccountType_def accountTypeMapping_def jsOr_def ToString_def ofField_def
      objectPrototypeNames_def)

lemma same_mapping_both_payloads:
  "mapAccountFields r = Some a \<Longrightarrow>
     getProp a ''account_type'' = getProp (mapContactFields r) ''user_type''"
  by (simp add: account_payload_properties(6) mapContactFields_def getProp_cleanObject
      contactMapping_distinct getProp_contactMapping)

text \<open>
  C8 at the input \<open>'constructor'\<close>. The lookup in the object literal finds the inherited
  \<open>Object.prototype.constructor\<close>, which is truthy, so \<open>mapAccountType\<close> returns that
  function and not the string it was given; both payloads carry it. The claim holds at
  every name that \<open>Object.prototype\<close> does not have (\<open>mapAccountType_table\<close>), and both
  payloads get the same value (\<open>same_mapping_both_payloads\<close>).
\<close>

theorem inherited_name_not_passed_through:
  "mapAccountType (Some ''constructor'') = JInherited ''constructor'' \<and>
   mapAccountFields rowInherited = Some accountInherited \<and>
   getProp accountInherited ''account_type'' = JInherited ''constructor'' \<and>
   getProp (mapContactFields rowInherited) ''user_type'' = JInherited ''constructor''"
  by (simp add: mapAccountFields_samples(4))
     (simp add: rowInherited_def accountInherited_def mapContactFields_def contactMapping_def
       payload_eval)


section \<open>Batch planning\<close>

lemma batchStep_eq:
  "batchStep (A, C, P) r =
     (A @ (case mapAccountFields r of Some a \<Rightarrow> [a] | None \<Rightarrow> []),
      C @ [mapContactFields r],
      P @ (case mapAccountFields r of
             Some a \<Rightarrow> [\<lparr>accountId = getProp a ''id'',
                         contactEmail = getProp (mapContactFields r) ''email''\<rparr>]
           | None \<Rightarrow> []))"
  by (simp add: batchStep_def Let_def split: option.splits)

lemma foldl_batchStep:
  "foldl batchStep (A, C, P) rs =
     (A @ concat (map (\<lambda>r. case mapAccountFields r of Some a \<Rightarrow> [a] | None \<Rightarrow> []) rs),
      C @ map mapContactFields rs,
      P @ concat (map (\<lambda>r. case mapAccountFields r of
             Some a \<Rightarrow> [\<lparr>accountId = getProp a ''id'',
                         contactEmail = getProp (mapContactFields r) ''email''\<rparr>]
           | None \<Rightarrow> []) rs))"
proof (induction rs arbitrary: A C P)
  case Nil
  then show ?case by simp
next
  case (Cons r rs)
  show ?case
    unfolding foldl_Cons batchStep_eq Cons.IH by simp
qed

lemma length_concat_option:
  "length (concat (map (\<lambda>r. case f r of Some a \<Rightarrow> [g r a] | None \<Rightarrow> []) rs)) \<le> length rs"
  by (induction rs) (auto split: option.splits)

lemma makeBatch_accounts:
  "accounts (makeBatch rows i) =
     concat (map (\<lambda>r. case mapAccountFields r of Some a \<Rightarrow> [a] | None \<Rightarrow> [])
       (take batchSize (drop i rows)))"
  by (simp add: makeBatch_def foldl_batchStep)

lemma makeBatch_contacts:
  "contacts (makeBatch rows i) = map mapContactFields (take batchSize (drop i rows))"
  by (simp add: makeBatch_def foldl_batchStep)

lemma makeBatch_associations:
  "associations (makeBatch rows i) =
     concat (map (\<lambda>r. case mapAccountFields r of
             Some a \<Rightarrow> [\<lparr>accountId = getProp a ''id'',
                         contactEmail = getProp (mapContactFields r) ''email''\<rparr>]
           | None \<Rightarrow> []) (take batchSize (drop i rows)))"
  by (simp add: makeBatch_def foldl_batchStep)

lemma makeBatch_sizes:
  "length (accounts (makeBatch rows i)) \<le> 100" "length (contacts (makeBatch rows i)) \<le> 100"
proof -
  have "length (accounts (makeBatch rows i)) \<le> length (take batchSize (drop i rows))"
    unfolding makeBatch_accounts
    by (rule length_concat_option [where f = mapAccountFields and g = "\<lambda>r a. a"])
  also have "\<dots> \<le> 100"
    by (simp add: batchSize_def)
  finally show "length (accounts (makeBatch rows i)) \<le> 100" .
  show "length (contacts (makeBatch rows i)) \<le> 100"
    by (simp add: makeBatch_contacts batchSize_def)
qed

lemma makeBatch_pairs:
  assumes "p \<in> set (associations (makeBatch rows i))"
  shows "\<exists>r\<in>set (take batchSize (drop i rows)). \<exists>a. mapAccountFields r = Some a \<and>
           a \<in> set (accounts (makeBatch rows i)) \<and>
           mapContactFields r \<in> set (contacts (makeBatch rows i)) \<and>
           accountId p = getProp a ''id'' \<and>
           contactEmail p = getProp (mapContactFields r) ''email''"
proof -
  from assms obtain r where r: "r \<in> set (take batchSize (drop i rows))"
    and p: "p \<in> set (case mapAccountFields r of
             Some a \<Rightarrow> [\<lparr>accountId = getProp a ''id'',
                         contactEmail = getProp (mapContactFields r) ''email''\<rparr>]
           | None \<Rightarrow> [])"
    unfolding makeBatch_associations by auto
  from p obtain a where a: "mapAccountFields r = Some a"
    by (cases "mapAccountFields r") auto
  with p have pe: "p = \<lparr>accountId = getProp a ''id'',
      contactEmail = getProp (mapContactFields r) ''email''\<rparr>"
    by simp
  from r a have "a \<in> set (accounts (makeBatch rows i))"
    unfolding makeBatch_accounts by force
  moreover from r have "mapContactFields r \<in> set (contacts (makeBatch rows i))"
    unfolding makeBatch_contacts by simp
  ultimately show ?thesis using r a pe by auto
qed

lemma groupLoop_nth:
  "k < length (groupLoop rows i) \<Longrightarrow> groupLoop rows i ! k = makeBatch rows (i + k * batchSize)"
proof (induction rows i arbitrary: k rule: groupLoop.induct)
  case (1 rows i)
  show ?case
  proof (cases "i < length rows")
    case False
    with "1.prems" show ?thesis by (simp add: groupLoop.simps [of rows i])
  next
    case True
    then have unf: "groupLoop rows i = makeBatch rows i # groupLoop rows (i + batchSize)"
      by (simp add: groupLoop.simps [of rows i])
    show ?thesis
    proof (cases k)
      case 0
      then show ?thesis by (simp add: unf)
    next
      case (Suc k')
      with "1.prems" have "k' < length (groupLoop rows (i + batchSize))" by (simp add: unf)
      from "1.IH" [OF True this] Suc show ?thesis
        by (simp add: unf add_ac)
    qed
  qed
qed

text \<open>
  C6. In every batch that \<open>groupForBatchProcessing\<close> produces, the list of accounts and the
  list of contacts have at most 100 entries, and every association pair comes from a
  record of the slice the batch was built from, one for which \<open>mapAccountFields\<close> gave an
  account payload: that payload is among the accounts of the batch, the contact payload
  of the record is among its contacts, and the pair holds the \<open>id\<close> of the one and the
  \<open>email\<close> of the other.
\<close>

theorem batches_bounded_and_aligned:
  assumes "k < length (groupForBatchProcessing rows)"
  shows "length (accounts (groupForBatchProcessing rows ! k)) \<le> 100 \<and>
         length (contacts (groupForBatchProcessing rows ! k)) \<le> 100 \<and>
         (\<forall>p\<in>set (associations (groupForBatchProcessing rows ! k)).
            \<exists>r\<in>set (take 100 (drop (100 * k) rows)). \<exists>a.
              mapAccountFields r = Some a \<and>
              a \<in> set (accounts (groupForBatchProcessing rows ! k)) \<and>
              mapContactFields r \<in> set (contacts (groupForBatchProcessing rows ! k)) \<and>
              accountId p = getProp a ''id'' \<and>
              contactEmail p = getProp (mapContactFields r) ''email'')"
proof -
  have b: "groupForBatchProcessing rows ! k = makeBatch rows (100 * k)"
    using groupLoop_nth [of k rows 0] assms
    by (simp add: groupForBatchProcessing_def batchSize_def mult.commute)
  show ?thesis
    unfolding b using makeBatch_sizes [of rows "100 * k"] makeBatch_pairs [of _ rows "100 * k"]
    by (simp add: batchSize_def)
qed

lemma mapContactFields_samples:
  "mapContactFields rowNew = contactNew" "mapContactFields rowOld = contactOld"
  by (simp_all add: rowNew_def rowOld_def contactNew_def contactOld_def mapContactFields_def
      contactMapping_def payload_eval)

lemma group_samples:
  "groupForBatchProcessing [rowNew, rowOld] =
     [\<lparr>accounts = [accountNew, accountOld], contacts = [contactNew, contactOld],
       associations = [\<lparr>accountId = JString ''U1'', contactEmail = JString ''a@b.com''\<rparr>,
                       \<lparr>accountId = JString ''U2'', contactEmail = JString ''c@d.org''\<rparr>],
       batchNumber = 1, totalBatches = 1\<rparr>]"
proof -
  have "groupLoop [rowNew, rowOld] 0 = [makeBatch [rowNew, rowOld] 0]"
    by (simp add: groupLoop.simps [of _ 0] groupLoop.simps [of _ 100] batchSize_def)
  then show ?thesis
    by (simp add: groupForBatchProcessing_def makeBatch_def batchStep_def batchSize_def
        mapAccountFields_samples mapContactFields_samples)
       (simp add: getProp_def accountNew_def accountOld_def contactNew_def contactOld_def)
qed

theorem batches_bounded_and_aligned_witness:
  "(0::nat) < length (groupForBatchProcessing [rowNew, rowOld]) \<and>
   length (accounts (groupForBatchProcessing [rowNew, rowOld] ! 0)) \<le> 100 \<and>
   length (contacts (groupForBatchProcessing [rowNew, rowOld] ! 0)) \<le> 100 \<and>
   associations (groupForBatchProcessing [rowNew, rowOld] ! 0) =
     [\<lparr>accountId = JString ''U1'', contactEmail = JString ''a@b.com''\<rparr>,
      \<lparr>accountId = JString ''U2'', contactEmail = JString ''c@d.org''\<rparr>]"
proof -
  have h: "0 < length (groupForBatchProcessing [rowNew, rowOld])"
    by (simp add: group_samples)
  from batches_bounded_and_aligned [OF h] h show ?thesis
    by (simp add: group_samples)
qed


section \<open>Deactivations\<close>

lemma identifyStep_eq: "identifyStep m acc account = acc @ writesFor m account"
  by (simp add: identifyStep_def writesFor_def Let_def split: jsval.splits option.splits)

lemma identify_foldl: "foldl (identifyStep m) acc acts = acc @ concat (map (writesFor m) acts)"
proof (induction acts arbitrary: acc)
  case Nil
  then show ?case by simp
next
  case (Cons a acts)
  show ?case unfolding foldl_Cons Cons.IH by (simp add: identifyStep_eq)
qed

lemma identifyDeactivations_eq:
  "identifyDeactivations m acts = concat (map (writesFor m) acts)"
  by (simp add: identifyDeactivations_def identify_foldl)

lemma in_identifyDeactivations:
  "w \<in> set (identifyDeactivations m acts) \<longleftrightarrow>
     (\<exists>account\<in>set acts. \<exists>s entry. getProp (properties account) ''id'' = JString s \<and>
        m s = Some entry \<and>
        w = \<lparr>hubspotId = id_hs account, accountId_d = JString s, updateData = entry\<rparr>)"
proof -
  have one: "w \<in> set (writesFor m account) \<longleftrightarrow>
      (\<exists>s entry. getProp (properties account) ''id'' = JString s \<and> m s = Some entry \<and>
         w = \<lparr>hubspotId = id_hs account, accountId_d = JString s, updateData = entry\<rparr>)"
    for account
    by (cases "getProp (properties account) ''id''")
       (auto simp: writesFor_def split: option.splits)
  show ?thesis
    unfolding identifyDeactivations_eq set_concat using one by auto
qed

lemma dom_createDeactivationMap:
  "dom (createDeactivationMap rows) = {u. u \<noteq> [] \<and> (\<exists>r\<in>set rows. rowGet r ''user_id'' = Some u)}"
  by (auto simp: dom_def createDeactivationMap_eq filter_empty_conv)

lemma processDeactivations_calls:
  "calls (snd (processDeactivations h st rows)) =
     calls st @
       (if rows = [] then []
        else SearchActiveAccounts #
          (case h (calls st) SearchActiveAccounts of
             Inl e \<Rightarrow> []
           | Inr activeAccounts \<Rightarrow>
               (if identifyDeactivations (createDeactivationMap rows) activeAccounts = [] then []
                else [UpdateAccounts
                        (identifyDeactivations (createDeactivationMap rows) activeAccounts)])))"
  by (auto simp: processDeactivations_def invoke_def Let_def split: sum.splits)


text \<open>
  C5. \<open>identifyDeactivations\<close> on the map that \<open>createDeactivationMap\<close> builds from the
  locally inactive records and on the accounts that the remote store reports as active:
  the business ids of the deactivations are exactly those that are keys of the map (the
  non-empty \<open>user_id\<close>s of the records) and ids of active remote accounts. Every
  deactivation carries \<open>active_subscription = false\<close> and the three subscription counts
  read from the local record with that \<open>user_id\<close> (the last one, if several have it).
  \<open>processDeactivations\<close> sends these deactivations, when there are any, in one call of
  \<open>batchUpdateAccounts\<close>, and makes no other client call but the search.
\<close>

theorem deactivations_are_intersection:
  "accountId_d ` set (identifyDeactivations (createDeactivationMap rows) activeAccounts) =
     {JString u | u. u \<in> dom (createDeactivationMap rows) \<and>
        JString u \<in> (\<lambda>account. getProp (properties account) ''id'') ` set activeAccounts} \<and>
   dom (createDeactivationMap rows) =
     {u. u \<noteq> [] \<and> (\<exists>r\<in>set rows. rowGet r ''user_id'' = Some u)} \<and>
   (\<forall>w\<in>set (identifyDeactivations (createDeactivationMap rows) activeAccounts).
      \<exists>u. accountId_d w = JString u \<and>
        (\<exists>r\<in>set rows. rowGet r ''user_id'' = Some u \<and>
           r = last (filter (\<lambda>r. rowGet r ''user_id'' = Some u) rows) \<and>
           getProp (updateData w) ''active_subscription'' = JBoolean False \<and>
           (\<forall>(f, c)\<in>set countColumns. getProp (updateData w) f = countOf (rowGet r c)))) \<and>
   calls (snd (processDeactivations h st rows)) =
     calls st @
       (if rows = [] then []
        else SearchActiveAccounts #
          (case h (calls st) SearchActiveAccounts of
             Inl e \<Rightarrow> []
           | Inr activeAccounts \<Rightarrow>
               (if identifyDeactivations (createDeactivationMap rows) activeAccounts = [] then []
                else [UpdateAccounts
                        (identifyDeactivations (createDeactivationMap rows) activeAccounts)])))"
proof (intro conjI ballI)
  let ?m = "createDeactivationMap rows"
  show "accountId_d ` set (identifyDeactivations ?m activeAccounts) =
     {JString u | u. u \<in> dom ?m \<and>
        JString u \<in> (\<lambda>account. getProp (properties account) ''id'') ` set activeAccounts}"
  proof (intro set_eqI iffI)
    fix v
    assume "v \<in> accountId_d ` set (identifyDeactivations ?m activeAccounts)"
    then obtain w where "w \<in> set (identifyDeactivations ?m activeAccounts)" "v = accountId_d w"
      by blast
    then obtain account s entry where "account \<in> set activeAccounts"
      "getProp (properties account) ''id'' = JString s" "?m s = Some entry" "v = JString s"
      unfolding in_identifyDeactivations by auto
    then show "v \<in> {JString u | u. u \<in> dom ?m \<and>
        JString u \<in> (\<lambda>account. getProp (properties account) ''id'') ` set activeAccounts}"
      by force
  next
    fix v
    assume "v \<in> {JString u | u. u \<in> dom ?m \<and>
        JString u \<in> (\<lambda>account. getProp (properties account) ''id'') ` set activeAccounts}"
    then obtain u where v: "v = JString u" and du: "u \<in> dom ?m"
      and iu: "JString u \<in> (\<lambda>account. getProp (properties account) ''id'') ` set activeAccounts"
      by blast
    from du obtain entry where m: "?m u = Some entry" by blast
    from iu obtain account where acc: "account \<in> set activeAccounts"
      "getProp (properties account) ''id'' = JString u"
      by (metis (mono_tags, lifting) imageE)
    let ?w = "\<lparr>hubspotId = id_hs account, accountId_d = JString u, updateData = entry\<rparr>"
    from m acc have "?w \<in> set (identifyDeactivations ?m activeAccounts)"
      unfolding in_identifyDeactivations by blast
    then have "accountId_d ?w \<in> accountId_d ` set (identifyDeactivations ?m activeAccounts)"
      by (rule imageI)
    then show "v \<in> accountId_d ` set (identifyDeactivations ?m activeAccounts)"
      by (simp add: v)
  qed
  show "dom ?m = {u. u \<noteq> [] \<and> (\<exists>r\<in>set rows. rowGet r ''user_id'' = Some u)}"
    by (rule dom_createDeactivationMap)
next
  fix w
  let ?m = "createDeactivationMap rows"
  assume "w \<in> set (identifyDeactivations ?m activeAccounts)"
  then obtain account :: remoteObject and s entry where m: "?m s = Some entry"
    and w: "w = \<lparr>hubspotId = id_hs account, accountId_d = JString s, updateData = entry\<rparr>"
    unfolding in_identifyDeactivations by blast
  let ?rs = "filter (\<lambda>r. rowGet r ''user_id'' = Some s) rows"
  from m have ne: "?rs \<noteq> []" and e: "entry = deactivationEntry (last ?rs) s"
    by (auto simp: createDeactivationMap_eq split: if_splits)
  from ne have "last ?rs \<in> set ?rs" by (rule last_in_set)
  then have l: "last ?rs \<in> set rows" "rowGet (last ?rs) ''user_id'' = Some s" by simp_all
  have c: "\<forall>(f, c)\<in>set countColumns. getProp (updateData w) f = countOf (rowGet (last ?rs) c)"
    by (simp add: countColumns_def w e getProp_deactivationEntry)
  have a: "getProp (updateData w) ''active_subscription'' = JBoolean False"
    by (simp add: w e getProp_deactivationEntry)
  show "\<exists>u. accountId_d w = JString u \<and>
        (\<exists>r\<in>set rows. rowGet r ''user_id'' = Some u \<and>
           r = last (filter (\<lambda>r. rowGet r ''user_id'' = Some u) rows) \<and>
           getProp (updateData w) ''active_subscription'' = JBoolean False \<and>
           (\<forall>(f, c)\<in>set countColumns. getProp (updateData w) f = countOf (rowGet r c)))"
    apply (rule exI [of _ s])
    apply (rule conjI)
     apply (simp add: w)
    apply (rule bexI [of _ "last ?rs"])
    using l a c by simp_all
next
  show "calls (snd (processDeactivations h st rows)) =
     calls st @
       (if rows = [] then []
        else SearchActiveAccounts #
          (case h (calls st) SearchActiveAccounts of
             Inl e \<Rightarrow> []
           | Inr activeAccounts \<Rightarrow>
               (if identifyDeactivations (createDeactivationMap rows) activeAccounts = [] then []
                else [UpdateAccounts
                        (identifyDeactivations (createDeactivationMap rows) activeAccounts)])))"
    by (rule processDeactivations_calls)
qed

lemma identify_sample:
  "identifyDeactivations (createDeactivationMap [rowOld]) remoteActive =
     [\<lparr>hubspotId = ''901'', accountId_d = JString ''U2'', updateData = entryOld\<rparr>]"
  by (simp add: identifyDeactivations_def identifyStep_def remoteActive_def getProp_def
      createDeactivationMap_def deactivationStep_def deactivationEntry_def entryOld_def
      rowOld_def payload_eval)

theorem deactivations_are_intersection_witness:
  "identifyDeactivations (createDeactivationMap [rowOld]) remoteActive =
     [\<lparr>hubspotId = ''901'', accountId_d = JString ''U2'', updateData = entryOld\<rparr>] \<and>
   dom (createDeactivationMap [rowOld]) = {''U2''} \<and>
   getProp entryOld ''active_subscription'' = JBoolean False \<and>
   getProp entryOld ''weekly_subscriptions'' = countOf (rowGet rowOld ''weekly_sub_count'')"
proof -
  have u: "rowGet rowOld ''user_id'' = Some ''U2''" by (simp add: rowOld_def rowGet_def)
  have d: "{u. u \<noteq> [] \<and> (\<exists>r\<in>set [rowOld]. rowGet r ''user_id'' = Some u)} = {''U2''}"
    using u by auto
  from deactivations_are_intersection [of "[rowOld]" remoteActive rejectsCreate newIntegration]
  show ?thesis
    unfolding identify_sample d
    by (simp add: countColumns_def u)
qed


section \<open>Batch execution\<close>

lemma length_simulated: "length (simulated prefix payloads) = length payloads"
  by (simp add: simulated_def)

lemma simulated_Nil_iff [simp]: "simulated prefix payloads = [] \<longleftrightarrow> payloads = []"
  by (simp add: simulated_def)

lemma writeBatch_Update:
  "writeBatch h st b Update =
     (Inr (simulated ''updated-account-'' (accounts b), simulated ''updated-contact-'' (contacts b)),
      st\<lparr>accountsUpdated := accountsUpdated st + length (accounts b),
         contactsUpdated := contactsUpdated st + length (contacts b)\<rparr>)"
  by (simp add: writeBatch_def Let_def length_simulated)

text \<open>
  C2 on the code. For an \<open>'update'\<close> batch no update is sent to the remote store: the
  results are made up from the payloads of the batch, the counters \<open>accountsUpdated\<close> and
  \<open>contactsUpdated\<close> grow by the numbers of payloads, whatever the client would answer, and
  the only client call that \<open>processSingleBatch\<close> makes is the one for the associations.
\<close>

theorem update_batch_not_sent:
  "writeBatch h st b Update =
     (Inr (simulated ''updated-account-'' (accounts b), simulated ''updated-contact-'' (contacts b)),
      st\<lparr>accountsUpdated := accountsUpdated st + length (accounts b),
         contactsUpdated := contactsUpdated st + length (contacts b)\<rparr>) \<and>
   calls (snd (processSingleBatch h st b Update n t)) =
     calls st @
       (if length (associations b) > 0 \<and> length (accounts b) > 0 \<and> length (contacts b) > 0
        then [CreateAssociations (associations b)
                (simulated ''updated-account-'' (accounts b))
                (simulated ''updated-contact-'' (contacts b))]
        else [])"
proof -
  let ?call = "CreateAssociations (associations b)
                (simulated ''updated-account-'' (accounts b))
                (simulated ''updated-contact-'' (contacts b))"
  let ?c = "length (associations b) > 0 \<and> length (accounts b) > 0 \<and> length (contacts b) > 0"
  have t: "calls (snd (tryBatch h st b Update)) = calls st @ (if ?c then [?call] else [])"
  proof (cases ?c)
    case True
    then show ?thesis
      by (cases "h (calls st) ?call")
         (simp_all add: tryBatch_def writeBatch_Update invoke_def length_simulated)
  next
    case False
    then show ?thesis
      by (auto simp: tryBatch_def writeBatch_Update)
  qed
  have p: "calls (snd (processSingleBatch h st b Update n t)) = calls (snd (tryBatch h st b Update))"
    by (cases "tryBatch h st b Update") (auto simp: processSingleBatch_def split: option.splits)
  show ?thesis
    unfolding p t by (simp add: writeBatch_Update)
qed

lemma invoke_keeps:
  "errors (snd (invoke h st c)) = errors st"
  "batchesProcessed (snd (invoke h st c)) = batchesProcessed st"
  by (simp_all add: invoke_def)






















section \<open>Token refresh and retry\<close>


















end
